theory Spec2Isabelle
  imports Main "HOL-Library.Word" "HOL-Library.Sublist"
begin

section \<open>Values of the application shell\<close>

text \<open>
  The shell is \<^verbatim>\<open>src/src/App.tsx\<close>. A JavaScript string is a sequence of UTF-16 code
  units, so a string is a list of 16-bit words. The numbers the shell handles are counters
  (quiz answers, seconds, list lengths); they are modelled as mathematical integers, which
  is what the JavaScript \<^verbatim>\<open>+\<close>, \<^verbatim>\<open>===\<close> and \<^verbatim>\<open>Math.max\<close> compute on integers
  below \<open>2^53\<close>. Fractions, \<^verbatim>\<open>NaN\<close> and the infinities are outside the model.

  A safe integer (\<^verbatim>\<open>Number.isSafeInteger\<close>) is an integer between \<open>-2^53\<close> and
  \<open>2^53\<close>, both excluded. The sum of two safe integers, when it is safe, is the number
  that \<^verbatim>\<open>+\<close> returns; beyond that range \<^verbatim>\<open>+\<close> rounds, and the statements below that
  give the value of a sum say so in a hypothesis.
\<close>

definition safeInteger :: "int \<Rightarrow> bool" where
  "safeInteger n = (- (2 ^ 53) < n \<and> n < 2 ^ 53)"

type_synonym u16 = "16 word"

type_synonym jsstring = "u16 list"

text \<open>An ASCII literal of the source, as code units.\<close>

definition ascii :: "string \<Rightarrow> jsstring" where
  "ascii s = map of_char s"

text \<open>
  \<^verbatim>\<open>type ScreenType = 'welcome' | 'entrance' | 'rooms' | 'notebook' | 'progress' | 'games'\<close>,
  with capitals (\<open>welcome\<close> is a keyword of Isabelle).
\<close>

datatype ScreenType = Welcome | Entrance | Rooms | Notebook | Progress | Games

text \<open>
  Modelled from the spec: \<^verbatim>\<open>./types/grammar\<close> is missing from the sources. The spec calls
  \<^verbatim>\<open>GrammarLevel\<close> an enumerated value (beginner, intermediate, advanced), the keys of the
  table in \<^verbatim>\<open>getTotalGrammarCount\<close>.
\<close>

datatype GrammarLevel = Beginner | Intermediate | Advanced

text \<open>
  The data that \<^verbatim>\<open>JSON.stringify\<close> writes and \<^verbatim>\<open>JSON.parse\<close> reads. An object is the
  list of its own properties in their order.
\<close>

datatype json =
    JNull
  | JBool bool
  | JNum int
  | JStr jsstring
  | JArr "json list"
  | JObj "(jsstring \<times> json) list"

text \<open>
  Modelled from the spec: \<^verbatim>\<open>./types/grammar\<close> is missing from the sources. The spec says
  that a \<^verbatim>\<open>GrammarPoint\<close> is a record with a unique identifier field \<^verbatim>\<open>id\<close> which the
  shell treats as opaque data otherwise. The model keeps the identifier (a string, named
  \<open>id_gp\<close> since \<open>id\<close> is the identity function of HOL) and the other properties
  as JSON data, in their order.
\<close>

record GrammarPoint =
  id_gp :: jsstring
  props_gp :: "(jsstring \<times> json) list"

text \<open>The state cells of \<^verbatim>\<open>App\<close> (lines 14 to 21).\<close>

record QuizStats =
  correct :: int
  total :: int
  streak :: int
  bestStreak :: int

record StudyStats =
  quizStats :: QuizStats
  studyTime :: int
  grammarMastered :: int

record AppState =
  currentScreen :: ScreenType
  selectedLevel :: "GrammarLevel option"
  savedGrammar :: "GrammarPoint list"
  studyStats :: StudyStats

definition initialStats :: StudyStats where
  "initialStats =
     \<lparr>quizStats = \<lparr>correct = 0, total = 0, streak = 0, bestStreak = 0\<rparr>,
      studyTime = 0, grammarMastered = 0\<rparr>"

definition initialState :: AppState where
  "initialState =
     \<lparr>currentScreen = Welcome, selectedLevel = None, savedGrammar = [],
      studyStats = initialStats\<rparr>"

section \<open>The handlers\<close>

text \<open>Lines 59 to 66.\<close>

definition handleScreenChange :: "ScreenType \<Rightarrow> AppState \<Rightarrow> AppState" where
  "handleScreenChange screen st = st\<lparr>currentScreen := screen\<rparr>"

definition handleLevelSelect :: "GrammarLevel \<Rightarrow> AppState \<Rightarrow> AppState" where
  "handleLevelSelect level st = st\<lparr>selectedLevel := Some level, currentScreen := Rooms\<rparr>"

text \<open>
  Lines 68 to 76. \<^verbatim>\<open>prev.find(g => g.id === grammar.id)\<close> is the first element with
  that identifier or \<^verbatim>\<open>undefined\<close>; an element is an object, so \<^verbatim>\<open>!exists\<close> holds
  exactly when none was found.
\<close>

definition saveGrammarUpdate :: "GrammarPoint \<Rightarrow> GrammarPoint list \<Rightarrow> GrammarPoint list" where
  "saveGrammarUpdate grammar prev =
     (case find (\<lambda>g. id_gp g = id_gp grammar) prev of
        None \<Rightarrow> prev @ [grammar]
      | Some exists \<Rightarrow> prev)"

definition handleSaveGrammar :: "GrammarPoint \<Rightarrow> AppState \<Rightarrow> AppState" where
  "handleSaveGrammar grammar st = st\<lparr>savedGrammar := saveGrammarUpdate grammar (savedGrammar st)\<rparr>"

text \<open>
  Lines 78 to 88. Every field of the new \<^verbatim>\<open>quizStats\<close> is computed from \<^verbatim>\<open>prev\<close>, the
  statistics before the call. The sums are the sums of integers, those of the code while
  the operands and the results are safe integers.
\<close>

definition quizCompleteUpdate :: "int \<Rightarrow> int \<Rightarrow> StudyStats \<Rightarrow> StudyStats" where
  "quizCompleteUpdate correct' total' prev =
     prev\<lparr>quizStats :=
       \<lparr>correct = correct (quizStats prev) + correct',
        total = total (quizStats prev) + total',
        streak = (if correct' = total' then streak (quizStats prev) + correct' else 0),
        bestStreak = max (bestStreak (quizStats prev)) (streak (quizStats prev))\<rparr>\<rparr>"

definition handleQuizComplete :: "int \<Rightarrow> int \<Rightarrow> AppState \<Rightarrow> AppState" where
  "handleQuizComplete correct' total' st =
     st\<lparr>studyStats := quizCompleteUpdate correct' total' (studyStats st)\<rparr>"

text \<open>Lines 90 to 92.\<close>

definition handleGameComplete :: "int \<Rightarrow> int \<Rightarrow> AppState \<Rightarrow> AppState" where
  "handleGameComplete score totalQuestions st = handleQuizComplete score totalQuestions st"

text \<open>
  The callback of the interval, lines 50 to 53; the sum is that of the code while
  \<open>studyTime\<close> and \<open>studyTime + 1\<close> are safe integers.
\<close>

definition tickUpdate :: "StudyStats \<Rightarrow> StudyStats" where
  "tickUpdate prev = prev\<lparr>studyTime := studyTime prev + 1\<rparr>"

definition tick :: "AppState \<Rightarrow> AppState" where
  "tick st = st\<lparr>studyStats := tickUpdate (studyStats st)\<rparr>"

text \<open>Lines 94 to 105.\<close>

definition counts :: "(GrammarLevel \<times> int) list" where
  "counts = [(Beginner, 2), (Intermediate, 50), (Advanced, 1)]"

definition getTotalGrammarCount :: int where
  "getTotalGrammarCount = foldl (\<lambda>sum count. sum + count) 0 (map snd counts)"

definition getAllGrammarPoints :: "AppState \<Rightarrow> GrammarPoint list" where
  "getAllGrammarPoints st = savedGrammar st"

section \<open>Rendering\<close>

text \<open>
  Lines 118 to 212: the leaf that is mounted, with the data it receives (the callbacks
  are the handlers above). \<open>None\<close> is the blank page of the \<^verbatim>\<open>rooms\<close> screen without a
  selected level. The arguments of \<open>StudyProgress\<close> are \<^verbatim>\<open>quizStats\<close>, \<^verbatim>\<open>studyTime\<close>,
  \<^verbatim>\<open>grammarMastered\<close> and \<^verbatim>\<open>totalGrammar\<close>, in this order.
\<close>

datatype Leaf =
    WelcomeScreen
  | MuseumEntrance
  | GrammarRooms GrammarLevel
  | PersonalNotebook "GrammarPoint list"
  | StudyProgress QuizStats int int int
  | GrammarGame "GrammarPoint list"

definition render :: "AppState \<Rightarrow> Leaf option" where
  "render st =
     (case currentScreen st of
        Welcome \<Rightarrow> Some WelcomeScreen
      | Entrance \<Rightarrow> Some MuseumEntrance
      | Rooms \<Rightarrow>
          (case selectedLevel st of
             None \<Rightarrow> None
           | Some level \<Rightarrow> Some (GrammarRooms level))
      | Notebook \<Rightarrow> Some (PersonalNotebook (savedGrammar st))
      | Progress \<Rightarrow>
          Some (StudyProgress (quizStats (studyStats st)) (studyTime (studyStats st))
                  (int (length (savedGrammar st))) getTotalGrammarCount)
      | Games \<Rightarrow> Some (GrammarGame (getAllGrammarPoints st)))"

section \<open>The interval and the events of a session\<close>

text \<open>
  Lines 46 to 57. \<^verbatim>\<open>setInterval(callback, 1000)\<close> arms a timer that calls the callback
  every 1000 milliseconds. An armed interval is its delay and the milliseconds that have
  passed since it was armed or since its last firing. The effect depends on
  \<^verbatim>\<open>currentScreen\<close>: when a commit changes the screen, the cleanup of the previous run
  clears its interval, and the new run arms one exactly on the \<^verbatim>\<open>rooms\<close> screen.
  Time is the time of the timer as the platform specifies it; the lateness of a browser
  under load is not modelled.
\<close>

record Interval =
  delay :: nat
  waited :: nat

definition setInterval :: "nat \<Rightarrow> Interval" where
  "setInterval ms = \<lparr>delay = ms, waited = 0\<rparr>"

record Runtime =
  app :: AppState
  interval :: "Interval option"

definition studyTimeEffect :: "Runtime \<Rightarrow> Runtime" where
  "studyTimeEffect rt =
     rt\<lparr>interval := (if currentScreen (app rt) = Rooms then Some (setInterval 1000) else None)\<rparr>"

definition commit :: "AppState \<Rightarrow> Runtime \<Rightarrow> Runtime" where
  "commit next rt =
     (if currentScreen next = currentScreen (app rt) then rt\<lparr>app := next\<rparr>
      else studyTimeEffect (rt\<lparr>app := next\<rparr>))"

text \<open>
  The session after mounting: the load effect (lines 24 to 34) has assigned the two
  persisted cells or left their defaults, and the first run of the interval effect has
  armed nothing on \<^verbatim>\<open>welcome\<close>. \<open>initialRuntime\<close> is the session that starts with the
  defaults.
\<close>

definition mounted :: "GrammarPoint list \<Rightarrow> StudyStats \<Rightarrow> Runtime" where
  "mounted saved stats =
     studyTimeEffect
       \<lparr>app = initialState\<lparr>savedGrammar := saved, studyStats := stats\<rparr>, interval = None\<rparr>"

definition initialRuntime :: Runtime where
  "initialRuntime = mounted [] initialStats"

text \<open>
  What can happen after the first render: a leaf calls one of the callbacks it was given,
  time passes, or the interval fires. The leaves are not part of the sources, so a
  callback is not tied to the screen whose leaf holds it: every callback may be called in
  every state, which covers whatever the leaves do. \<open>Elapse ms\<close> lets \<open>ms\<close>
  milliseconds pass; an armed interval counts them, and time cannot pass beyond the moment
  at which its callback is due. The callback runs when the interval is armed and its delay
  has passed, and the interval then counts from zero again. \<open>None\<close> says that the event
  cannot happen in this state.
\<close>

datatype Event =
    Navigate ScreenType
  | LevelSelect GrammarLevel
  | SaveGrammar GrammarPoint
  | GameComplete int int
  | Elapse nat
  | IntervalFires

fun fire :: "Event \<Rightarrow> Runtime \<Rightarrow> Runtime option" where
  "fire (Navigate screen) rt = Some (commit (handleScreenChange screen (app rt)) rt)"
| "fire (LevelSelect level) rt = Some (commit (handleLevelSelect level (app rt)) rt)"
| "fire (SaveGrammar grammar) rt = Some (commit (handleSaveGrammar grammar (app rt)) rt)"
| "fire (GameComplete score totalQuestions) rt =
     Some (commit (handleGameComplete score totalQuestions (app rt)) rt)"
| "fire (Elapse ms) rt =
     (case interval rt of
        None \<Rightarrow> Some rt
      | Some i \<Rightarrow>
          if waited i + ms \<le> delay i then Some (rt\<lparr>interval := Some (i\<lparr>waited := waited i + ms\<rparr>)\<rparr>)
          else None)"
| "fire IntervalFires rt =
     (case interval rt of
        None \<Rightarrow> None
      | Some i \<Rightarrow>
          if waited i = delay i
          then Some (commit (tick (app rt)) (rt\<lparr>interval := Some (i\<lparr>waited := 0\<rparr>)\<rparr>))
          else None)"

fun run :: "Event list \<Rightarrow> Runtime \<Rightarrow> Runtime option" where
  "run [] rt = Some rt"
| "run (e # es) rt = (case fire e rt of None \<Rightarrow> None | Some rt' \<Rightarrow> run es rt')"

text \<open>The precondition of \<^verbatim>\<open>recordQuizResult\<close> in the spec, on the results a game reports.\<close>

fun validResult :: "Event \<Rightarrow> bool" where
  "validResult (GameComplete score totalQuestions) = (0 \<le> score \<and> score \<le> totalQuestions)"
| "validResult _ = True"

text \<open>
  The firings of the interval in a sequence of events, the milliseconds that pass in it,
  and the milliseconds an interval has counted (none when no interval is armed).
\<close>

definition firings :: "Event list \<Rightarrow> nat" where
  "firings es = length (filter (\<lambda>e. e = IntervalFires) es)"

fun milliseconds :: "Event \<Rightarrow> nat" where
  "milliseconds (Elapse ms) = ms"
| "milliseconds _ = 0"

definition elapsed :: "Event list \<Rightarrow> nat" where
  "elapsed es = sum_list (map milliseconds es)"

definition waitedOf :: "Runtime \<Rightarrow> nat" where
  "waitedOf rt = (case interval rt of None \<Rightarrow> 0 | Some i \<Rightarrow> waited i)"

section \<open>JSON.stringify\<close>

text \<open>
  \<^verbatim>\<open>JSON.stringify\<close> and \<^verbatim>\<open>JSON.parse\<close> are functions of the platform, not of the
  repository; the persistence effects (lines 24 to 43) call them. They are modelled on the
  data of type \<open>json\<close>, after ECMA-262: \<open>stringify\<close> is \<^verbatim>\<open>JSON.stringify(value)\<close>
  without a replacer or an indentation, \<open>parseJSON\<close> is \<^verbatim>\<open>JSON.parse(text)\<close> without a
  reviver.

  A string is quoted the way \<^verbatim>\<open>QuoteJSONString\<close> does: the short escapes for backspace,
  tab, line feed, form feed, carriage return, the double quote and the backslash; a
  backslash, the letter u and four lower-case hexadecimal digits for the other code units
  below \<open>0x20\<close> and for a surrogate that is not part of a pair; every other code unit as
  it is.
\<close>

definition hexdigit :: "nat \<Rightarrow> u16" where
  "hexdigit n = (if n < 10 then of_nat (0x30 + n) else of_nat (0x61 + (n - 10)))"

definition unicodeEscape :: "u16 \<Rightarrow> jsstring" where
  "unicodeEscape c =
     [0x5C, 0x75, hexdigit (unat c div 4096), hexdigit (unat c div 256 mod 16),
      hexdigit (unat c div 16 mod 16), hexdigit (unat c mod 16)]"

definition isLeadSurrogate :: "u16 \<Rightarrow> bool" where
  "isLeadSurrogate c = (0xD800 \<le> c \<and> c \<le> 0xDBFF)"

definition isTrailSurrogate :: "u16 \<Rightarrow> bool" where
  "isTrailSurrogate c = (0xDC00 \<le> c \<and> c \<le> 0xDFFF)"

fun quoteChars :: "jsstring \<Rightarrow> jsstring" where
  "quoteChars [] = []"
| "quoteChars (c # cs) =
     (if c = 0x08 then 0x5C # 0x62 # quoteChars cs
      else if c = 0x09 then 0x5C # 0x74 # quoteChars cs
      else if c = 0x0A then 0x5C # 0x6E # quoteChars cs
      else if c = 0x0C then 0x5C # 0x66 # quoteChars cs
      else if c = 0x0D then 0x5C # 0x72 # quoteChars cs
      else if c = 0x22 then 0x5C # 0x22 # quoteChars cs
      else if c = 0x5C then 0x5C # 0x5C # quoteChars cs
      else if c < 0x20 then unicodeEscape c @ quoteChars cs
      else if isLeadSurrogate c then
        (case cs of
           [] \<Rightarrow> unicodeEscape c
         | d # ds \<Rightarrow>
             if isTrailSurrogate d then c # d # quoteChars ds
             else unicodeEscape c @ quoteChars cs)
      else if isTrailSurrogate c then unicodeEscape c @ quoteChars cs
      else c # quoteChars cs)"

definition quoteJSONString :: "jsstring \<Rightarrow> jsstring" where
  "quoteJSONString s = 0x22 # quoteChars s @ [0x22]"

text \<open>
  An integer is written in decimal digits, with a minus sign when it is negative.
\<close>

fun digits :: "nat \<Rightarrow> jsstring" where
  "digits n = (if n < 10 then [of_nat (0x30 + n)] else digits (n div 10) @ [of_nat (0x30 + n mod 10)])"

declare digits.simps [simp del]

definition numberToString :: "int \<Rightarrow> jsstring" where
  "numberToString n = (if n < 0 then 0x2D # digits (nat (- n)) else digits (nat n))"

text \<open>
  Arrays and objects are written without white space, their parts separated by commas.
\<close>

fun commaJoin :: "jsstring list \<Rightarrow> jsstring" where
  "commaJoin [] = []"
| "commaJoin [x] = x"
| "commaJoin (x # y # ys) = x @ 0x2C # commaJoin (y # ys)"

fun stringify :: "json \<Rightarrow> jsstring" where
  "stringify JNull = ascii ''null''"
| "stringify (JBool b) = (if b then ascii ''true'' else ascii ''false'')"
| "stringify (JNum n) = numberToString n"
| "stringify (JStr s) = quoteJSONString s"
| "stringify (JArr xs) = 0x5B # commaJoin (map stringify xs) @ [0x5D]"
| "stringify (JObj ms) =
     0x7B # commaJoin (map (\<lambda>(k, v). quoteJSONString k @ 0x3A # stringify v) ms) @ [0x7D]"

section \<open>JSON.parse\<close>

text \<open>
  \<^verbatim>\<open>JSON.parse\<close> either returns a value or throws a \<^verbatim>\<open>SyntaxError\<close>. The model
  has a third outcome, \<open>Unmodelled\<close>, for texts it takes no position on: a number with a
  fraction or an exponent (numbers are integers here), and an object with a property name
  that is an array index (JavaScript orders such properties by their numeric value, which
  the property list of \<open>JObj\<close> does not do). \<open>Unmodelled\<close> never stands for a value or
  for an error of the platform; no statement below draws a conclusion from it.
\<close>

datatype failure = SyntaxError | Unmodelled

text \<open>
  The text is first cut into tokens. White space between tokens is a space, a tab, a
  line feed or a carriage return.
\<close>

datatype token =
    TLBrace | TRBrace | TLBracket | TRBracket | TComma | TColon
  | TString jsstring | TNumber int | TTrue | TFalse | TNull

text \<open>
  A string token, read after its opening quote: up to the closing quote. After a
  backslash comes a double quote, a backslash, a slash, one of the letters b, f, n, r, t,
  or the letter u and four hexadecimal digits of either case; a code unit below \<open>0x20\<close>
  or the end of the text inside a string is a syntax error. The result is the string and
  the rest of the text.
\<close>

definition hexval :: "u16 \<Rightarrow> nat option" where
  "hexval c =
     (if 0x30 \<le> c \<and> c \<le> 0x39 then Some (unat c - 0x30)
      else if 0x61 \<le> c \<and> c \<le> 0x66 then Some (unat c - 0x61 + 10)
      else if 0x41 \<le> c \<and> c \<le> 0x46 then Some (unat c - 0x41 + 10)
      else None)"

definition hex4 :: "u16 \<Rightarrow> u16 \<Rightarrow> u16 \<Rightarrow> u16 \<Rightarrow> u16 option" where
  "hex4 h1 h2 h3 h4 =
     (case (hexval h1, hexval h2, hexval h3, hexval h4) of
        (Some a, Some b, Some c, Some d) \<Rightarrow> Some (of_nat (((a * 16 + b) * 16 + c) * 16 + d))
      | _ \<Rightarrow> None)"

definition unescape :: "u16 \<Rightarrow> u16 option" where
  "unescape e =
     (if e = 0x22 then Some 0x22
      else if e = 0x5C then Some 0x5C
      else if e = 0x2F then Some 0x2F
      else if e = 0x62 then Some 0x08
      else if e = 0x66 then Some 0x0C
      else if e = 0x6E then Some 0x0A
      else if e = 0x72 then Some 0x0D
      else if e = 0x74 then Some 0x09
      else None)"

definition consChar :: "u16 \<Rightarrow> failure + jsstring \<times> jsstring \<Rightarrow> failure + jsstring \<times> jsstring" where
  "consChar c r = (case r of Inl e \<Rightarrow> Inl e | Inr (s, rest) \<Rightarrow> Inr (c # s, rest))"

fun lexString :: "jsstring \<Rightarrow> failure + jsstring \<times> jsstring" where
  "lexString [] = Inl SyntaxError"
| "lexString (c # cs) =
     (if c = 0x22 then Inr ([], cs)
      else if c = 0x5C then
        (case cs of
           [] \<Rightarrow> Inl SyntaxError
         | e # es \<Rightarrow>
             if e = 0x75 then
               (case es of
                  h1 # h2 # h3 # h4 # rest \<Rightarrow>
                    (case hex4 h1 h2 h3 h4 of
                       None \<Rightarrow> Inl SyntaxError
                     | Some u \<Rightarrow> consChar u (lexString rest))
                | _ \<Rightarrow> Inl SyntaxError)
             else
               (case unescape e of
                  None \<Rightarrow> Inl SyntaxError
                | Some u \<Rightarrow> consChar u (lexString es)))
      else if c < 0x20 then Inl SyntaxError
      else consChar c (lexString cs))"

text \<open>
  A number token: an optional minus sign, then \<open>0\<close> or a digit sequence without a
  leading zero, then an optional fraction and an optional exponent. A well-formed fraction
  or exponent makes the number \<open>Unmodelled\<close>; an ill-formed one is a syntax error.
\<close>

definition isDigit :: "u16 \<Rightarrow> bool" where
  "isDigit c = (0x30 \<le> c \<and> c \<le> 0x39)"

definition readNat :: "jsstring \<Rightarrow> nat" where
  "readNat ds = foldl (\<lambda>a d. 10 * a + (unat d - 0x30)) 0 ds"

definition lexFraction :: "jsstring \<Rightarrow> jsstring option" where
  "lexFraction cs =
     (case cs of
        [] \<Rightarrow> Some cs
      | c # cs' \<Rightarrow>
          if c = 0x2E then
            (if takeWhile isDigit cs' = [] then None else Some (dropWhile isDigit cs'))
          else Some cs)"

definition lexExponent :: "jsstring \<Rightarrow> jsstring option" where
  "lexExponent cs =
     (case cs of
        [] \<Rightarrow> Some cs
      | c # cs' \<Rightarrow>
          if c = 0x65 \<or> c = 0x45 then
            (let cs'' = (case cs' of
                           [] \<Rightarrow> cs'
                         | s # ss \<Rightarrow> if s = 0x2B \<or> s = 0x2D then ss else cs')
             in if takeWhile isDigit cs'' = [] then None else Some (dropWhile isDigit cs''))
          else Some cs)"

definition lexNumber :: "jsstring \<Rightarrow> failure + int \<times> jsstring" where
  "lexNumber cs =
     (let negative = (cs \<noteq> [] \<and> hd cs = 0x2D);
          cs1 = (if negative then tl cs else cs);
          ds = takeWhile isDigit cs1;
          rest = dropWhile isDigit cs1
      in if ds = [] then Inl SyntaxError
         else if hd ds = 0x30 \<and> 1 < length ds then Inl SyntaxError
         else
           (case lexFraction rest of
              None \<Rightarrow> Inl SyntaxError
            | Some rest1 \<Rightarrow>
                (case lexExponent rest1 of
                   None \<Rightarrow> Inl SyntaxError
                 | Some rest2 \<Rightarrow>
                     if length rest2 < length rest then Inl Unmodelled
                     else Inr (if negative then - int (readNat ds) else int (readNat ds), rest))))"

fun stripPrefix :: "'a list \<Rightarrow> 'a list \<Rightarrow> 'a list option" where
  "stripPrefix [] ys = Some ys"
| "stripPrefix (x # xs) [] = None"
| "stripPrefix (x # xs) (y # ys) = (if x = y then stripPrefix xs ys else None)"

definition isWhitespace :: "u16 \<Rightarrow> bool" where
  "isWhitespace c = (c = 0x20 \<or> c = 0x09 \<or> c = 0x0A \<or> c = 0x0D)"

definition consToken :: "token \<Rightarrow> failure + token list \<Rightarrow> failure + token list" where
  "consToken t r = (case r of Inl e \<Rightarrow> Inl e | Inr ts \<Rightarrow> Inr (t # ts))"

text \<open>
  Each token is shorter than the text it was read from, which is why the tokenizer
  terminates.
\<close>

lemma lexString_shorter: "lexString cs = Inr (s, rest) \<Longrightarrow> length rest < length cs"
proof (induction cs arbitrary: s rest rule: lexString.induct)
  case 1
  then show ?case by simp
next
  case (2 c cs)
  show ?case
    using "2.prems" "2.IH"
    apply (simp add: consChar_def split: if_splits list.splits option.splits sum.splits prod.splits)
      apply fastforce+
    done
qed

lemma lexNumber_shorter: "lexNumber cs = Inr (n, rest) \<Longrightarrow> length rest < length cs"
proof -
  assume a: "lexNumber cs = Inr (n, rest)"
  define cs1 where "cs1 = (if cs \<noteq> [] \<and> hd cs = 0x2D then tl cs else cs)"
  from a have ne: "takeWhile isDigit cs1 \<noteq> []" and r: "rest = dropWhile isDigit cs1"
    by (auto simp: lexNumber_def Let_def cs1_def split: if_splits option.splits)
  have "length (takeWhile isDigit cs1) + length (dropWhile isDigit cs1) = length cs1"
    by (metis length_append takeWhile_dropWhile_id)
  with ne r have "length rest < length cs1"
    by (cases "takeWhile isDigit cs1") auto
  moreover have "length cs1 \<le> length cs"
    by (simp add: cs1_def)
  ultimately show ?thesis by simp
qed

lemma stripPrefix_shorter: "stripPrefix xs ys = Some rest \<Longrightarrow> length rest \<le> length ys"
  by (induction xs ys rule: stripPrefix.induct) (auto split: if_splits)

function tokenize :: "jsstring \<Rightarrow> failure + token list" where
  "tokenize [] = Inr []"
| "tokenize (c # cs) =
     (if isWhitespace c then tokenize cs
      else if c = 0x7B then consToken TLBrace (tokenize cs)
      else if c = 0x7D then consToken TRBrace (tokenize cs)
      else if c = 0x5B then consToken TLBracket (tokenize cs)
      else if c = 0x5D then consToken TRBracket (tokenize cs)
      else if c = 0x2C then consToken TComma (tokenize cs)
      else if c = 0x3A then consToken TColon (tokenize cs)
      else if c = 0x22 then
        (case lexString cs of
           Inl e \<Rightarrow> Inl e
         | Inr (s, rest) \<Rightarrow> consToken (TString s) (tokenize rest))
      else if c = 0x2D \<or> isDigit c then
        (case lexNumber (c # cs) of
           Inl e \<Rightarrow> Inl e
         | Inr (n, rest) \<Rightarrow> consToken (TNumber n) (tokenize rest))
      else
        (case stripPrefix (ascii ''true'') (c # cs) of
           Some rest \<Rightarrow> consToken TTrue (tokenize rest)
         | None \<Rightarrow>
             (case stripPrefix (ascii ''false'') (c # cs) of
                Some rest \<Rightarrow> consToken TFalse (tokenize rest)
              | None \<Rightarrow>
                  (case stripPrefix (ascii ''null'') (c # cs) of
                     Some rest \<Rightarrow> consToken TNull (tokenize rest)
                   | None \<Rightarrow> Inl SyntaxError))))"
  by pat_completeness auto
termination
  apply (relation "measure length")
  apply (auto dest: lexString_shorter lexNumber_shorter dest!: stripPrefix_shorter
      simp: ascii_def split: if_splits)
  done


text \<open>
  The tokens are parsed by a machine with a stack of the arrays and objects that are
  still open. A state says what may come next: a value (\<open>PValue\<close>), the first element
  or the end of an array (\<open>PArrayStart\<close>), a comma or the end of an array
  (\<open>PArrayNext\<close>), the first property name or the end of an object (\<open>PObjectStart\<close>),
  a property name (\<open>PObjectKey\<close>), the colon after it (\<open>PColon\<close>), a comma or the end
  of an object (\<open>PObjectNext\<close>), or nothing any more (\<open>PDone\<close>).
\<close>

datatype frame =
    ArrayFrame "json list"
  | ObjectFrame "(jsstring \<times> json) list" jsstring

datatype pstate =
    PValue "frame list"
  | PArrayStart "frame list"
  | PArrayNext "json list" "frame list"
  | PObjectStart "frame list"
  | PObjectKey "(jsstring \<times> json) list" "frame list"
  | PColon "(jsstring \<times> json) list" jsstring "frame list"
  | PObjectNext "(jsstring \<times> json) list" "frame list"
  | PDone json

text \<open>
  \<^verbatim>\<open>JSON.parse\<close> defines each property as it reads it: a name that the object already
  has keeps its place and takes the new value, a new name goes to the end.
\<close>

fun setProperty :: "jsstring \<Rightarrow> json \<Rightarrow> (jsstring \<times> json) list \<Rightarrow> (jsstring \<times> json) list" where
  "setProperty k v [] = [(k, v)]"
| "setProperty k v (m # ms) = (if fst m = k then (k, v) # ms else m # setProperty k v ms)"

definition isIndexKey :: "jsstring \<Rightarrow> bool" where
  "isIndexKey k = (k \<noteq> [] \<and> list_all isDigit k \<and> (hd k = 0x30 \<longrightarrow> length k = 1))"

fun deliver :: "json \<Rightarrow> frame list \<Rightarrow> pstate" where
  "deliver v [] = PDone v"
| "deliver v (ArrayFrame xs # K) = PArrayNext (xs @ [v]) K"
| "deliver v (ObjectFrame ms k # K) = PObjectNext (setProperty k v ms) K"

fun startValue :: "token \<Rightarrow> frame list \<Rightarrow> failure + pstate" where
  "startValue TLBracket K = Inr (PArrayStart K)"
| "startValue TLBrace K = Inr (PObjectStart K)"
| "startValue (TString s) K = Inr (deliver (JStr s) K)"
| "startValue (TNumber n) K = Inr (deliver (JNum n) K)"
| "startValue TTrue K = Inr (deliver (JBool True) K)"
| "startValue TFalse K = Inr (deliver (JBool False) K)"
| "startValue TNull K = Inr (deliver JNull K)"
| "startValue TRBracket K = Inl SyntaxError"
| "startValue TRBrace K = Inl SyntaxError"
| "startValue TComma K = Inl SyntaxError"
| "startValue TColon K = Inl SyntaxError"

fun propertyName :: "token \<Rightarrow> (jsstring \<times> json) list \<Rightarrow> frame list \<Rightarrow> failure + pstate" where
  "propertyName (TString k) ms K = (if isIndexKey k then Inl Unmodelled else Inr (PColon ms k K))"
| "propertyName _ ms K = Inl SyntaxError"

fun step :: "token \<Rightarrow> pstate \<Rightarrow> failure + pstate" where
  "step t (PValue K) = startValue t K"
| "step t (PArrayStart K) =
     (if t = TRBracket then Inr (deliver (JArr []) K) else startValue t (ArrayFrame [] # K))"
| "step t (PArrayNext xs K) =
     (if t = TComma then Inr (PValue (ArrayFrame xs # K))
      else if t = TRBracket then Inr (deliver (JArr xs) K)
      else Inl SyntaxError)"
| "step t (PObjectStart K) =
     (if t = TRBrace then Inr (deliver (JObj []) K) else propertyName t [] K)"
| "step t (PObjectKey ms K) = propertyName t ms K"
| "step t (PColon ms k K) =
     (if t = TColon then Inr (PValue (ObjectFrame ms k # K)) else Inl SyntaxError)"
| "step t (PObjectNext ms K) =
     (if t = TComma then Inr (PObjectKey ms K)
      else if t = TRBrace then Inr (deliver (JObj ms) K)
      else Inl SyntaxError)"
| "step t (PDone v) = Inl SyntaxError"

fun steps :: "token list \<Rightarrow> pstate \<Rightarrow> failure + pstate" where
  "steps [] st = Inr st"
| "steps (t # ts) st = (case step t st of Inl e \<Rightarrow> Inl e | Inr st' \<Rightarrow> steps ts st')"

text \<open>
  The text must be exactly one value: tokens left over, or a text that stops early, are
  syntax errors.
\<close>

definition parseJSON :: "jsstring \<Rightarrow> failure + json" where
  "parseJSON text =
     (case tokenize text of
        Inl e \<Rightarrow> Inl e
      | Inr ts \<Rightarrow>
          (case steps ts (PValue []) of
             Inl e \<Rightarrow> Inl e
           | Inr (PDone v) \<Rightarrow> Inr v
           | Inr _ \<Rightarrow> Inl SyntaxError))"

section \<open>Persistence\<close>

text \<open>
  \<^verbatim>\<open>localStorage\<close> maps keys to strings; \<^verbatim>\<open>getItem\<close> returns \<^verbatim>\<open>null\<close> (here
  \<open>None\<close>) for a key that is absent. The keys of the shell are two ASCII literals.
\<close>

type_synonym Storage = "string \<rightharpoonup> jsstring"

definition getItem :: "Storage \<Rightarrow> string \<Rightarrow> jsstring option" where
  "getItem storage key = storage key"

definition setItem :: "string \<Rightarrow> jsstring \<Rightarrow> Storage \<Rightarrow> Storage" where
  "setItem key val storage = storage(key \<mapsto> val)"

text \<open>
  The JSON data of the two persisted cells. A \<^verbatim>\<open>GrammarPoint\<close> is an object whose first
  property is \<^verbatim>\<open>id\<close>; the statistics have the properties of the literal in lines 17 to 21,
  in that order, which the spreads in lines 50 to 53 and 79 to 87 keep.
\<close>

definition jsonOfGrammarPoint :: "GrammarPoint \<Rightarrow> json" where
  "jsonOfGrammarPoint g = JObj ((ascii ''id'', JStr (id_gp g)) # props_gp g)"

definition jsonOfSaved :: "GrammarPoint list \<Rightarrow> json" where
  "jsonOfSaved gs = JArr (map jsonOfGrammarPoint gs)"

definition jsonOfQuizStats :: "QuizStats \<Rightarrow> json" where
  "jsonOfQuizStats q =
     JObj [(ascii ''correct'', JNum (correct q)), (ascii ''total'', JNum (total q)),
           (ascii ''streak'', JNum (streak q)), (ascii ''bestStreak'', JNum (bestStreak q))]"

definition jsonOfStats :: "StudyStats \<Rightarrow> json" where
  "jsonOfStats s =
     JObj [(ascii ''quizStats'', jsonOfQuizStats (quizStats s)),
           (ascii ''studyTime'', JNum (studyTime s)),
           (ascii ''grammarMastered'', JNum (grammarMastered s))]"

text \<open>
  \<^verbatim>\<open>JSON.parse\<close> returns \<^verbatim>\<open>any\<close>, and lines 27 and 32 store the value unchecked. The
  state cells of the model are typed, so the value is read back into the type: a value of
  another shape than the one written above has no counterpart in the model (\<open>None\<close>).
\<close>

fun grammarPointOfJson :: "json \<Rightarrow> GrammarPoint option" where
  "grammarPointOfJson (JObj ((k, JStr i) # ms)) =
     (if k = ascii ''id'' then Some \<lparr>id_gp = i, props_gp = ms\<rparr> else None)"
| "grammarPointOfJson v = None"

fun savedOfJson :: "json \<Rightarrow> GrammarPoint list option" where
  "savedOfJson (JArr xs) = those (map grammarPointOfJson xs)"
| "savedOfJson v = None"

fun numberProperty :: "jsstring \<Rightarrow> jsstring \<times> json \<Rightarrow> int option" where
  "numberProperty key (k, JNum n) = (if k = key then Some n else None)"
| "numberProperty key m = None"

fun quizStatsOfJson :: "json \<Rightarrow> QuizStats option" where
  "quizStatsOfJson (JObj [m1, m2, m3, m4]) =
     (case (numberProperty (ascii ''correct'') m1, numberProperty (ascii ''total'') m2,
            numberProperty (ascii ''streak'') m3, numberProperty (ascii ''bestStreak'') m4) of
        (Some c, Some t, Some s, Some b) \<Rightarrow>
          Some \<lparr>correct = c, total = t, streak = s, bestStreak = b\<rparr>
      | _ \<Rightarrow> None)"
| "quizStatsOfJson v = None"

fun statsOfJson :: "json \<Rightarrow> StudyStats option" where
  "statsOfJson (JObj [(k, q), m2, m3]) =
     (case (if k = ascii ''quizStats'' then quizStatsOfJson q else None,
            numberProperty (ascii ''studyTime'') m2,
            numberProperty (ascii ''grammarMastered'') m3) of
        (Some qs, Some t, Some g) \<Rightarrow> Some \<lparr>quizStats = qs, studyTime = t, grammarMastered = g\<rparr>
      | _ \<Rightarrow> None)"
| "statsOfJson v = None"

text \<open>
  Lines 24 to 34, the load effect. \<^verbatim>\<open>if (saved)\<close> is false for \<^verbatim>\<open>null\<close> and for the
  empty string; otherwise the string is parsed, with no \<^verbatim>\<open>try\<close> around the call, so a
  \<^verbatim>\<open>SyntaxError\<close> of \<^verbatim>\<open>JSON.parse\<close> leaves the effect (\<open>Inl SyntaxError\<close>) and the
  statements after it do not run.
\<close>

definition loadSaved :: "Storage \<Rightarrow> GrammarPoint list \<Rightarrow> failure + GrammarPoint list" where
  "loadSaved storage current =
     (case getItem storage ''korean-grammar-saved'' of
        None \<Rightarrow> Inr current
      | Some saved \<Rightarrow>
          if saved = [] then Inr current
          else
            (case parseJSON saved of
               Inl e \<Rightarrow> Inl e
             | Inr v \<Rightarrow>
                 (case savedOfJson v of
                    None \<Rightarrow> Inl Unmodelled
                  | Some gs \<Rightarrow> Inr gs)))"

definition loadStats :: "Storage \<Rightarrow> StudyStats \<Rightarrow> failure + StudyStats" where
  "loadStats storage current =
     (case getItem storage ''korean-grammar-stats'' of
        None \<Rightarrow> Inr current
      | Some stats \<Rightarrow>
          if stats = [] then Inr current
          else
            (case parseJSON stats of
               Inl e \<Rightarrow> Inl e
             | Inr v \<Rightarrow>
                 (case statsOfJson v of
                    None \<Rightarrow> Inl Unmodelled
                  | Some s \<Rightarrow> Inr s)))"

definition load :: "Storage \<Rightarrow> AppState \<Rightarrow> failure + AppState" where
  "load storage st =
     (case loadSaved storage (savedGrammar st) of
        Inl e \<Rightarrow> Inl e
      | Inr gs \<Rightarrow>
          (case loadStats storage (studyStats st) of
             Inl e \<Rightarrow> Inl e
           | Inr s \<Rightarrow> Inr (st\<lparr>savedGrammar := gs, studyStats := s\<rparr>)))"

text \<open>
  Lines 36 to 43, the two effects that write the cells back after a commit that changed
  them.
\<close>

definition persistSaved :: "AppState \<Rightarrow> Storage \<Rightarrow> Storage" where
  "persistSaved st storage =
     setItem ''korean-grammar-saved'' (stringify (jsonOfSaved (savedGrammar st))) storage"

definition persistStats :: "AppState \<Rightarrow> Storage \<Rightarrow> Storage" where
  "persistStats st storage =
     setItem ''korean-grammar-stats'' (stringify (jsonOfStats (studyStats st))) storage"

text \<open>
  Mounting with a given storage: the load effect runs on the default state. It is the
  first effect of the component, so it has read the storage before the persist effects of
  the first render write to it; an error it raises is caught nowhere in the shell.
\<close>

definition mount :: "Storage \<Rightarrow> failure + Runtime" where
  "mount storage =
     (case load storage initialState of
        Inl e \<Rightarrow> Inl e
      | Inr st \<Rightarrow> Inr (mounted (savedGrammar st) (studyStats st)))"

section \<open>Stringified values as token sequences\<close>

text \<open>
  The tokens of the text that \<open>stringify\<close> writes for a value, and the ends of text
  after which a number token stops: the end of the text, a comma or a closing bracket.
\<close>

definition delimited :: "jsstring \<Rightarrow> bool" where
  "delimited rest = (case rest of [] \<Rightarrow> True | c # cs \<Rightarrow> c = 0x2C \<or> c = 0x5D \<or> c = 0x7D)"

fun commaTokens :: "token list list \<Rightarrow> token list" where
  "commaTokens [] = []"
| "commaTokens [x] = x"
| "commaTokens (x # y # ys) = x @ TComma # commaTokens (y # ys)"

fun tokens :: "json \<Rightarrow> token list" where
  "tokens JNull = [TNull]"
| "tokens (JBool b) = [if b then TTrue else TFalse]"
| "tokens (JNum n) = [TNumber n]"
| "tokens (JStr s) = [TString s]"
| "tokens (JArr xs) = TLBracket # commaTokens (map tokens xs) @ [TRBracket]"
| "tokens (JObj ms) =
     TLBrace # commaTokens (map (\<lambda>(k, v). TString k # TColon # tokens v) ms) @ [TRBrace]"

definition appendTokens :: "token list \<Rightarrow> failure + token list \<Rightarrow> failure + token list" where
  "appendTokens ts r = (case r of Inl e \<Rightarrow> Inl e | Inr ts' \<Rightarrow> Inr (ts @ ts'))"

definition memberTokens :: "jsstring \<times> json \<Rightarrow> token list" where
  "memberTokens m = TString (fst m) # TColon # tokens (snd m)"

text \<open>
  The values whose objects the parser rebuilds property by property: the property names
  of every object are distinct (as in every JavaScript object) and none is an array
  index.
\<close>

fun ordinaryKeys :: "json \<Rightarrow> bool" where
  "ordinaryKeys (JArr xs) = list_all ordinaryKeys xs"
| "ordinaryKeys (JObj ms) =
     (distinct (map fst ms) \<and> list_all (\<lambda>(k, v). \<not> isIndexKey k \<and> ordinaryKeys v) ms)"
| "ordinaryKeys v = True"

section \<open>Facts about the handlers and the events\<close>

lemmas handler_defs =
  handleScreenChange_def handleLevelSelect_def handleSaveGrammar_def handleGameComplete_def
  handleQuizComplete_def quizCompleteUpdate_def tick_def tickUpdate_def

lemmas runtime_defs =
  commit_def studyTimeEffect_def setInterval_def mounted_def initialRuntime_def
  initialState_def initialStats_def

lemma run_Cons_Some:
  assumes "run (e # es) rt = Some rt'"
  obtains rt1 where "fire e rt = Some rt1" and "run es rt1 = Some rt'"
  using assms by (auto split: option.splits)

text \<open>
  What holds of the interval after every commit: it is armed exactly on the \<^verbatim>\<open>rooms\<close>
  screen, with the delay of line 54, and has not counted beyond its delay.
\<close>

definition intervalArmed :: "Runtime \<Rightarrow> bool" where
  "intervalArmed rt =
     (case interval rt of
        None \<Rightarrow> currentScreen (app rt) \<noteq> Rooms
      | Some i \<Rightarrow> currentScreen (app rt) = Rooms \<and> delay i = 1000 \<and> waited i \<le> 1000)"

lemma interval_fire:
  assumes "fire e rt = Some rt'" and "intervalArmed rt"
  shows "intervalArmed rt'"
  using assms
  by (cases e)
    (auto simp: intervalArmed_def handler_defs commit_def studyTimeEffect_def setInterval_def
      split: if_splits option.splits)

lemma interval_run:
  assumes "run es rt = Some rt'" and "intervalArmed rt"
  shows "intervalArmed rt'"
  using assms
proof (induction es arbitrary: rt)
  case Nil
  then show ?case by simp
next
  case (Cons e es)
  from Cons.prems(1) obtain rt1 where f: "fire e rt = Some rt1" and r: "run es rt1 = Some rt'"
    by (rule run_Cons_Some)
  from Cons.IH [OF r interval_fire [OF f Cons.prems(2)]] show ?case .
qed

lemma interval_mounted: "intervalArmed (mounted saved stats)"
  by (simp add: intervalArmed_def runtime_defs)

lemma studyTime_fire:
  assumes "fire e rt = Some rt'"
  shows "studyTime (studyStats (app rt')) = studyTime (studyStats (app rt)) + int (firings [e])"
  using assms
  by (cases e)
    (auto simp: firings_def handler_defs commit_def studyTimeEffect_def
      split: if_splits option.splits)

lemma firings_Cons: "firings (e # es) = firings [e] + firings es"
  by (simp add: firings_def)

lemma elapsed_Cons: "elapsed (e # es) = milliseconds e + elapsed es"
  by (simp add: elapsed_def)

lemma studyTime_run:
  assumes "run es rt = Some rt'"
  shows "studyTime (studyStats (app rt')) = studyTime (studyStats (app rt)) + int (firings es)"
  using assms
proof (induction es arbitrary: rt)
  case Nil
  then show ?case by (simp add: firings_def)
next
  case (Cons e es)
  from Cons.prems obtain rt1 where f: "fire e rt = Some rt1" and r: "run es rt1 = Some rt'"
    by (rule run_Cons_Some)
  from studyTime_fire [OF f] Cons.IH [OF r] show ?case
    by (simp add: firings_Cons [of e es])
qed

lemma waited_fire:
  assumes "fire e rt = Some rt'" and "intervalArmed rt"
  shows "1000 * firings [e] + waitedOf rt' \<le> waitedOf rt + milliseconds e"
  using assms
  by (cases e)
    (auto simp: firings_def waitedOf_def intervalArmed_def handler_defs commit_def
      studyTimeEffect_def setInterval_def split: if_splits option.splits)

lemma waited_run:
  assumes "run es rt = Some rt'" and "intervalArmed rt"
  shows "1000 * firings es + waitedOf rt' \<le> waitedOf rt + elapsed es"
  using assms
proof (induction es arbitrary: rt)
  case Nil
  then show ?case by (simp add: firings_def elapsed_def)
next
  case (Cons e es)
  from Cons.prems(1) obtain rt1 where f: "fire e rt = Some rt1" and r: "run es rt1 = Some rt'"
    by (rule run_Cons_Some)
  from waited_fire [OF f Cons.prems(2)] Cons.IH [OF r interval_fire [OF f Cons.prems(2)]]
  show ?case
    by (simp add: firings_Cons [of e es] elapsed_Cons)
qed

lemma find_id_None: "(find (\<lambda>g. id_gp g = i) xs = None) = (\<forall>x\<in>set xs. id_gp x \<noteq> i)"
  by (induction xs) auto

lemma saveGrammarUpdate_if:
  "saveGrammarUpdate g xs = (if \<exists>x\<in>set xs. id_gp x = id_gp g then xs else xs @ [g])"
proof (cases "find (\<lambda>x. id_gp x = id_gp g) xs")
  case None
  then show ?thesis
    using find_id_None [of "id_gp g" xs] by (simp add: saveGrammarUpdate_def)
next
  case (Some y)
  then have "find (\<lambda>x. id_gp x = id_gp g) xs \<noteq> None"
    by simp
  then have "\<exists>x\<in>set xs. id_gp x = id_gp g"
    by (simp add: find_id_None)
  with Some show ?thesis
    by (simp add: saveGrammarUpdate_def)
qed

lemma saveGrammarUpdate_distinct:
  assumes "distinct (map id_gp xs)"
  shows "distinct (map id_gp (saveGrammarUpdate g xs))"
  using assms by (auto simp: saveGrammarUpdate_if)

lemma saveGrammarUpdate_prefix: "prefix xs (saveGrammarUpdate g xs)"
  by (simp add: saveGrammarUpdate_if)

lemma savedGrammar_fire:
  assumes "fire e rt = Some rt'"
  shows "savedGrammar (app rt') = savedGrammar (app rt)
       \<or> (\<exists>g. savedGrammar (app rt') = saveGrammarUpdate g (savedGrammar (app rt)))"
  using assms
  by (cases e)
    (auto simp: handler_defs commit_def studyTimeEffect_def split: if_splits option.splits)

lemma savedGrammar_run:
  assumes "run es rt = Some rt'" and "distinct (map id_gp (savedGrammar (app rt)))"
  shows "distinct (map id_gp (savedGrammar (app rt')))
       \<and> prefix (savedGrammar (app rt)) (savedGrammar (app rt'))"
  using assms
proof (induction es arbitrary: rt)
  case Nil
  then show ?case by simp
next
  case (Cons e es)
  from Cons.prems(1) obtain rt1 where f: "fire e rt = Some rt1" and r: "run es rt1 = Some rt'"
    by (rule run_Cons_Some)
  from savedGrammar_fire [OF f] Cons.prems(2)
  have d: "distinct (map id_gp (savedGrammar (app rt1)))"
    and p: "prefix (savedGrammar (app rt)) (savedGrammar (app rt1))"
    using saveGrammarUpdate_distinct saveGrammarUpdate_prefix by auto
  from Cons.IH [OF r d] p show ?case
    using prefix_order.order_trans by blast
qed

lemma quizStats_fire:
  assumes "fire e rt = Some rt'" and "validResult e"
    and "correct (quizStats (studyStats (app rt))) \<le> total (quizStats (studyStats (app rt)))"
  shows "correct (quizStats (studyStats (app rt'))) \<le> total (quizStats (studyStats (app rt')))"
  using assms
  by (cases e)
    (auto simp: handler_defs commit_def studyTimeEffect_def split: if_splits option.splits)

lemma quizStats_run:
  assumes "run es rt = Some rt'" and "\<forall>e\<in>set es. validResult e"
    and "correct (quizStats (studyStats (app rt))) \<le> total (quizStats (studyStats (app rt)))"
  shows "correct (quizStats (studyStats (app rt'))) \<le> total (quizStats (studyStats (app rt')))"
  using assms
proof (induction es arbitrary: rt)
  case Nil
  then show ?case by simp
next
  case (Cons e es)
  from Cons.prems(1) obtain rt1 where f: "fire e rt = Some rt1" and r: "run es rt1 = Some rt'"
    by (rule run_Cons_Some)
  from Cons.prems(2) have v: "validResult e" and vs: "\<forall>e\<in>set es. validResult e"
    by simp_all
  from Cons.IH [OF r vs quizStats_fire [OF f v Cons.prems(3)]] show ?case .
qed

section \<open>Facts about JSON.parse after JSON.stringify\<close>

lemma unat_small: "n < 65536 \<Longrightarrow> unat (of_nat n :: u16) = n"
  by (simp add: unat_of_nat)

lemma unat_hexdigit: "n < 16 \<Longrightarrow> unat (hexdigit n) = (if n < 10 then 48 + n else 87 + n)"
  unfolding hexdigit_def by (simp add: unat_small del: of_nat_add of_nat_numeral)

lemma hexval_hexdigit: "n < 16 \<Longrightarrow> hexval (hexdigit n) = Some n"
  unfolding hexval_def word_le_nat_alt by (simp add: unat_hexdigit)

lemma nibbles:
  fixes n :: nat
  shows "((n div 4096 * 16 + n div 256 mod 16) * 16 + n div 16 mod 16) * 16 + n mod 16 = n"
proof -
  have e1: "n div 256 = n div 16 div 16" and e2: "n div 4096 = n div 256 div 16"
    by (simp_all add: div_mult2_eq)
  have a: "n div 256 * 16 + n div 16 mod 16 = n div 16"
    by (simp only: e1 div_mult_mod_eq)
  have b: "n div 4096 * 16 + n div 256 mod 16 = n div 256"
    by (simp only: e2 div_mult_mod_eq)
  have c: "n div 16 * 16 + n mod 16 = n"
    by (simp only: div_mult_mod_eq)
  show ?thesis
    by (simp only: a b c)
qed

lemma hex4_digits:
  fixes c :: u16
  shows "hex4 (hexdigit (unat c div 4096)) (hexdigit (unat c div 256 mod 16))
           (hexdigit (unat c div 16 mod 16)) (hexdigit (unat c mod 16)) = Some c"
proof -
  have lt: "unat c < 65536"
    using unsigned_less [of c, where 'a = nat] by simp
  then have a: "unat c div 4096 < 16"
    by simp
  have v: "hexval (hexdigit (unat c div 4096)) = Some (unat c div 4096)"
    "hexval (hexdigit (unat c div 256 mod 16)) = Some (unat c div 256 mod 16)"
    "hexval (hexdigit (unat c div 16 mod 16)) = Some (unat c div 16 mod 16)"
    "hexval (hexdigit (unat c mod 16)) = Some (unat c mod 16)"
    using a by (simp_all add: hexval_hexdigit)
  have "(of_nat (unat c) :: u16) = c"
    by simp
  then have w: "(of_nat (((unat c div 4096 * 16 + unat c div 256 mod 16) * 16
                    + unat c div 16 mod 16) * 16 + unat c mod 16) :: u16) = c"
    by (simp only: nibbles)
  show ?thesis
    unfolding hex4_def v by (simp only: prod.case option.case w)
qed

lemma lexString_unicodeEscape:
  "lexString (unicodeEscape c @ cs) = consChar c (lexString cs)"
  by (simp add: unicodeEscape_def hex4_digits)

lemma lexString_quoteChars: "lexString (quoteChars s @ 0x22 # rest) = Inr (s, rest)"
proof (induction s rule: quoteChars.induct)
  case 1
  then show ?case by simp
next
  case (2 c cs)
  show ?case
  proof (cases "c = 0x08 \<or> c = 0x09 \<or> c = 0x0A \<or> c = 0x0C \<or> c = 0x0D \<or> c = 0x22 \<or> c = 0x5C")
    case True
    then consider "c = 0x08" | "c = 0x09" | "c = 0x0A" | "c = 0x0C" | "c = 0x0D" | "c = 0x22" | "c = 0x5C"
      by blast
    then show ?thesis
    proof cases
      case 1
      with "2.IH"(1) show ?thesis by (simp add: unescape_def consChar_def)
    next
      case 2
      with "2.IH"(2) show ?thesis by (simp add: unescape_def consChar_def)
    next
      case 3
      with "2.IH"(3) show ?thesis by (simp add: unescape_def consChar_def)
    next
      case 4
      with "2.IH"(4) show ?thesis by (simp add: unescape_def consChar_def)
    next
      case 5
      with "2.IH"(5) show ?thesis by (simp add: unescape_def consChar_def)
    next
      case 6
      with "2.IH"(6) show ?thesis by (simp add: unescape_def consChar_def)
    next
      case 7
      with "2.IH"(7) show ?thesis by (simp add: unescape_def consChar_def)
    qed
  next
    case False
    note plain = this
    show ?thesis
    proof (cases "c < 0x20")
      case True
      with plain "2.IH"(8) show ?thesis
        by (simp add: lexString_unicodeEscape consChar_def del: lexString.simps)
    next
      case False
      note big = this
      show ?thesis
      proof (cases "isLeadSurrogate c")
        case True
        show ?thesis
        proof (cases cs)
          case Nil
          have "lexString (0x22 # rest) = Inr ([], rest)"
            by simp
          with Nil plain big True show ?thesis
            using lexString_unicodeEscape [of c "0x22 # rest"]
            by (simp add: consChar_def del: lexString.simps)
        next
          case (Cons d ds)
          show ?thesis
          proof (cases "isTrailSurrogate d")
            case t: True
            then have d: "d \<noteq> 0x22" "d \<noteq> 0x5C" "\<not> d < 0x20"
              by (auto simp: isTrailSurrogate_def word_le_nat_alt word_less_nat_alt)
            from plain big True Cons t d "2.IH"(9) show ?thesis
              by (simp add: consChar_def)
          next
            case f: False
            from plain big True Cons f "2.IH"(10) show ?thesis
              using lexString_unicodeEscape [of c "quoteChars cs @ 0x22 # rest"]
              by (simp add: consChar_def del: lexString.simps)
          qed
        qed
      next
        case False
        note nolead = this
        show ?thesis
        proof (cases "isTrailSurrogate c")
          case True
          with plain big nolead "2.IH"(11) show ?thesis
            using lexString_unicodeEscape [of c "quoteChars cs @ 0x22 # rest"]
            by (simp add: consChar_def del: lexString.simps)
        next
          case False
          with plain big nolead "2.IH"(12) show ?thesis
            by (simp add: consChar_def)
        qed
      qed
    qed
  qed
qed

lemma unat_digit: "k < 10 \<Longrightarrow> unat (of_nat (0x30 + k) :: u16) = 48 + k"
  by (simp add: unat_small del: of_nat_add of_nat_numeral)

lemma isDigit_digit: "k < 10 \<Longrightarrow> isDigit (of_nat (0x30 + k))"
  unfolding isDigit_def word_le_nat_alt by (simp add: unat_digit del: of_nat_add of_nat_numeral)

lemma digits_isDigit: "list_all isDigit (digits n)"
proof (induction n rule: digits.induct)
  case (1 n)
  show ?case
  proof (cases "n < 10")
    case True
    then show ?thesis
      by (subst digits.simps) (simp add: isDigit_digit del: of_nat_add of_nat_numeral)
  next
    case False
    with "1.IH" show ?thesis
      by (subst digits.simps) (simp add: isDigit_digit del: of_nat_add of_nat_numeral)
  qed
qed

lemma digits_not_Nil: "digits n \<noteq> []"
  by (subst digits.simps) simp

lemma readNat_snoc: "readNat (ds @ [d]) = 10 * readNat ds + (unat d - 0x30)"
  by (simp add: readNat_def)

lemma readNat_digits: "readNat (digits n) = n"
proof (induction n rule: digits.induct)
  case (1 n)
  show ?case
  proof (cases "n < 10")
    case True
    then show ?thesis
      by (subst digits.simps) (simp add: readNat_def unat_digit del: of_nat_add of_nat_numeral)
  next
    case False
    with "1.IH" show ?thesis
      by (subst digits.simps) (simp add: readNat_snoc unat_digit del: of_nat_add of_nat_numeral)
  qed
qed

lemma hd_digits: "0 < n \<Longrightarrow> hd (digits n) \<noteq> 0x30"
proof (induction n rule: digits.induct)
  case (1 n)
  show ?case
  proof (cases "n < 10")
    case True
    have "unat (of_nat (0x30 + n) :: u16) \<noteq> unat (0x30 :: u16)"
      using True "1.prems" by (simp add: unat_digit del: of_nat_add of_nat_numeral)
    then have "(of_nat (0x30 + n) :: u16) \<noteq> 0x30"
      by metis
    with True show ?thesis
      by (subst digits.simps) (simp del: of_nat_add of_nat_numeral)
  next
    case False
    then have "0 < n div 10"
      by simp
    with False "1.IH" have "hd (digits (n div 10)) \<noteq> 0x30"
      by simp
    with False show ?thesis
      by (subst digits.simps) (simp add: digits_not_Nil)
  qed
qed

lemma digits_no_leading_zero: "\<not> (hd (digits n) = 0x30 \<and> 1 < length (digits n))"
proof (cases "n = 0")
  case True
  then show ?thesis
    by (subst (2) digits.simps) simp
next
  case False
  then show ?thesis
    using hd_digits [of n] by simp
qed

lemma delimited_not_digit: "delimited (c # cs) \<Longrightarrow> \<not> isDigit c"
  by (auto simp: delimited_def isDigit_def)

lemma takeWhile_digits:
  assumes "delimited rest"
  shows "takeWhile isDigit (digits n @ rest) = digits n"
    and "dropWhile isDigit (digits n @ rest) = rest"
proof -
  have all: "\<forall>c\<in>set (digits n). isDigit c"
    using digits_isDigit [of n] by (simp add: list_all_iff)
  have t: "takeWhile isDigit rest = []" and d: "dropWhile isDigit rest = rest"
    using assms delimited_not_digit by (cases rest; auto)+
  from all t show "takeWhile isDigit (digits n @ rest) = digits n"
    by simp
  from all d show "dropWhile isDigit (digits n @ rest) = rest"
    by simp
qed

lemma lexFraction_delimited: "delimited rest \<Longrightarrow> lexFraction rest = Some rest"
  by (auto simp: lexFraction_def delimited_def split: list.splits)

lemma lexExponent_delimited: "delimited rest \<Longrightarrow> lexExponent rest = Some rest"
  by (auto simp: lexExponent_def delimited_def split: list.splits)

lemma hd_digits_not_minus: "hd (digits n) \<noteq> 0x2D"
proof -
  have "isDigit (hd (digits n))"
    using digits_isDigit [of n] digits_not_Nil [of n] by (cases "digits n") simp_all
  then show ?thesis
    by (auto simp: isDigit_def)
qed

lemma lexNumber_numberToString:
  assumes "delimited rest"
  shows "lexNumber (numberToString i @ rest) = Inr (i, rest)"
proof (cases "i < 0")
  case True
  let ?n = "nat (- i)"
  have s: "numberToString i @ rest = 0x2D # (digits ?n @ rest)"
    using True by (simp add: numberToString_def)
  show ?thesis
    unfolding s lexNumber_def
    using True digits_no_leading_zero [of ?n]
    by (simp add: Let_def takeWhile_digits [OF assms] digits_not_Nil
        lexFraction_delimited [OF assms] lexExponent_delimited [OF assms] readNat_digits)
next
  case False
  let ?n = "nat i"
  have s: "numberToString i @ rest = digits ?n @ rest"
    using False by (simp add: numberToString_def)
  have h: "hd (digits ?n @ rest) \<noteq> 0x2D"
    using hd_digits_not_minus [of ?n] digits_not_Nil [of ?n] by simp
  show ?thesis
    unfolding s lexNumber_def
    using False digits_no_leading_zero [of ?n] h
    by (simp add: Let_def takeWhile_digits [OF assms] digits_not_Nil
        lexFraction_delimited [OF assms] lexExponent_delimited [OF assms] readNat_digits)
qed

lemma consToken_append: "consToken t r = appendTokens [t] r"
  by (simp add: consToken_def appendTokens_def split: sum.splits)

lemma appendTokens_Nil: "appendTokens [] r = r"
  by (simp add: appendTokens_def split: sum.splits)

lemma appendTokens_append: "appendTokens a (appendTokens b r) = appendTokens (a @ b) r"
  by (simp add: appendTokens_def split: sum.splits)

lemma tokenize_punctuation:
  "tokenize (0x7B # cs) = appendTokens [TLBrace] (tokenize cs)"
  "tokenize (0x7D # cs) = appendTokens [TRBrace] (tokenize cs)"
  "tokenize (0x5B # cs) = appendTokens [TLBracket] (tokenize cs)"
  "tokenize (0x5D # cs) = appendTokens [TRBracket] (tokenize cs)"
  "tokenize (0x2C # cs) = appendTokens [TComma] (tokenize cs)"
  "tokenize (0x3A # cs) = appendTokens [TColon] (tokenize cs)"
  by (simp_all add: isWhitespace_def consToken_append)

lemma tokenize_quoteJSONString:
  "tokenize (quoteJSONString s @ rest) = appendTokens [TString s] (tokenize rest)"
  by (simp add: quoteJSONString_def isWhitespace_def lexString_quoteChars consToken_append)

lemma tokenize_keywords:
  "tokenize (ascii ''null'' @ rest) = appendTokens [TNull] (tokenize rest)"
  "tokenize (ascii ''true'' @ rest) = appendTokens [TTrue] (tokenize rest)"
  "tokenize (ascii ''false'' @ rest) = appendTokens [TFalse] (tokenize rest)"
  by (simp_all add: ascii_def isWhitespace_def isDigit_def consToken_append)

lemma tokenize_number_start:
  assumes "c = 0x2D \<or> isDigit c" and "lexNumber (c # cs) = Inr (n, rest)"
  shows "tokenize (c # cs) = appendTokens [TNumber n] (tokenize rest)"
proof -
  from assms(1) have "\<not> isWhitespace c" "c \<noteq> 0x7B" "c \<noteq> 0x7D" "c \<noteq> 0x5B" "c \<noteq> 0x5D"
    "c \<noteq> 0x2C" "c \<noteq> 0x3A" "c \<noteq> 0x22"
    by (auto simp: isWhitespace_def isDigit_def)
  with assms show ?thesis
    by (simp add: consToken_append)
qed

lemma tokenize_numberToString:
  assumes "delimited rest"
  shows "tokenize (numberToString i @ rest) = appendTokens [TNumber i] (tokenize rest)"
proof -
  obtain c cs where s: "numberToString i @ rest = c # cs" and c: "c = 0x2D \<or> isDigit c"
  proof (cases "i < 0")
    case True
    then have "numberToString i @ rest = 0x2D # (digits (nat (- i)) @ rest)"
      by (simp add: numberToString_def)
    then show ?thesis
      using that by blast
  next
    case False
    obtain d ds where d: "digits (nat i) = d # ds"
      using digits_not_Nil [of "nat i"] by (cases "digits (nat i)") auto
    then have "isDigit d"
      using digits_isDigit [of "nat i"] by simp
    moreover have "numberToString i @ rest = d # (ds @ rest)"
      using False d by (simp add: numberToString_def)
    ultimately show ?thesis
      using that by blast
  qed
  from lexNumber_numberToString [OF assms, of i] s
  have "lexNumber (c # cs) = Inr (i, rest)"
    by simp
  from tokenize_number_start [OF c this] s show ?thesis
    by simp
qed

lemma delimited_simps:
  "delimited []" "delimited (0x2C # cs)" "delimited (0x5D # cs)" "delimited (0x7D # cs)"
  by (simp_all add: delimited_def)

lemma tokenize_commaJoin:
  assumes "list_all2 (\<lambda>str ts. \<forall>r. delimited r \<longrightarrow> tokenize (str @ r) = appendTokens ts (tokenize r)) strs tss"
    and "delimited rest"
  shows "tokenize (commaJoin strs @ rest) = appendTokens (commaTokens tss) (tokenize rest)"
  using assms
proof (induction strs tss rule: list_all2_induct)
  case Nil
  then show ?case
    by (simp add: appendTokens_Nil)
next
  case (Cons str strs ts tss)
  show ?case
  proof (cases strs)
    case Nil
    with Cons.hyps(2) have "tss = []"
      by simp
    with Nil Cons.hyps(1) Cons.prems show ?thesis
      by simp
  next
    case (Cons str' strs')
    with Cons.hyps(2) obtain ts' tss' where t: "tss = ts' # tss'"
      by (cases tss) auto
    have "tokenize (str @ 0x2C # commaJoin strs @ rest)
            = appendTokens ts (tokenize (0x2C # commaJoin strs @ rest))"
      using Cons.hyps(1) delimited_simps(2) by blast
    also have "\<dots> = appendTokens ts (appendTokens [TComma] (tokenize (commaJoin strs @ rest)))"
      by (simp only: tokenize_punctuation)
    also have "\<dots> = appendTokens ts (appendTokens [TComma] (appendTokens (commaTokens tss) (tokenize rest)))"
      using Cons.IH [OF Cons.prems] by simp
    finally show ?thesis
      using Cons t by (simp add: appendTokens_append)
  qed
qed

lemma tokenize_stringify:
  "delimited rest \<Longrightarrow> tokenize (stringify v @ rest) = appendTokens (tokens v) (tokenize rest)"
proof (induction v arbitrary: rest)
  case JNull
  then show ?case by (simp add: tokenize_keywords)
next
  case (JBool b)
  then show ?case by (simp add: tokenize_keywords)
next
  case (JNum n)
  then show ?case by (simp add: tokenize_numberToString)
next
  case (JStr s)
  then show ?case by (simp add: tokenize_quoteJSONString)
next
  case (JArr xs)
  have "list_all2 (\<lambda>str ts. \<forall>r. delimited r \<longrightarrow> tokenize (str @ r) = appendTokens ts (tokenize r))
          (map stringify xs) (map tokens xs)"
    using JArr.IH by (simp add: list_all2_map1 list_all2_map2 list_all2_same)
  from tokenize_commaJoin [OF this delimited_simps(3)]
  have "tokenize (commaJoin (map stringify xs) @ 0x5D # rest)
          = appendTokens (commaTokens (map tokens xs)) (appendTokens [TRBracket] (tokenize rest))"
    by (simp only: tokenize_punctuation)
  then show ?case
    by (simp add: tokenize_punctuation appendTokens_append del: tokenize.simps)
next
  case (JObj ms)
  have m: "\<forall>r. delimited r \<longrightarrow>
      tokenize ((quoteJSONString k @ 0x3A # stringify v) @ r)
        = appendTokens (TString k # TColon # tokens v) (tokenize r)" if "(k, v) \<in> set ms" for k v
  proof (intro allI impI)
    fix r
    assume "delimited r"
    with JObj.IH [of "(k, v)" v r] that
    have "tokenize (stringify v @ r) = appendTokens (tokens v) (tokenize r)"
      by simp
    then show "tokenize ((quoteJSONString k @ 0x3A # stringify v) @ r)
        = appendTokens (TString k # TColon # tokens v) (tokenize r)"
      by (simp add: tokenize_quoteJSONString tokenize_punctuation appendTokens_append del: tokenize.simps)
  qed
  have "list_all2 (\<lambda>str ts. \<forall>r. delimited r \<longrightarrow> tokenize (str @ r) = appendTokens ts (tokenize r))
          (map (\<lambda>(k, v). quoteJSONString k @ 0x3A # stringify v) ms)
          (map (\<lambda>(k, v). TString k # TColon # tokens v) ms)"
    using m by (auto simp: list_all2_map1 list_all2_map2 list_all2_same)
  from tokenize_commaJoin [OF this delimited_simps(4)]
  have "tokenize (commaJoin (map (\<lambda>(k, v). quoteJSONString k @ 0x3A # stringify v) ms) @ 0x7D # rest)
          = appendTokens (commaTokens (map (\<lambda>(k, v). TString k # TColon # tokens v) ms))
              (appendTokens [TRBrace] (tokenize rest))"
    by (simp only: tokenize_punctuation)
  then show ?case
    by (simp add: tokenize_punctuation appendTokens_append del: tokenize.simps)
qed

lemma steps_tokens_PArrayStart:
  "steps (tokens v @ ts) (PArrayStart K) = steps (tokens v @ ts) (PValue (ArrayFrame [] # K))"
  by (cases v) simp_all

lemma setProperty_fresh: "k \<notin> fst ` set ms \<Longrightarrow> setProperty k v ms = ms @ [(k, v)]"
  by (induction ms) auto

lemma steps_elements:
  assumes "\<forall>x\<in>set (x0 # xs). \<forall>K ts. steps (tokens x @ ts) (PValue K) = steps ts (deliver x K)"
  shows "steps (commaTokens (map tokens (x0 # xs)) @ ts) (PValue (ArrayFrame acc # K))
           = steps ts (PArrayNext (acc @ x0 # xs) K)"
  using assms
proof (induction xs arbitrary: x0 acc)
  case Nil
  then show ?case by simp
next
  case (Cons x1 xs)
  have "steps (commaTokens (map tokens (x0 # x1 # xs)) @ ts) (PValue (ArrayFrame acc # K))
          = steps (tokens x0 @ (TComma # commaTokens (map tokens (x1 # xs)) @ ts))
              (PValue (ArrayFrame acc # K))"
    by simp
  also have "\<dots> = steps (TComma # commaTokens (map tokens (x1 # xs)) @ ts)
                      (deliver x0 (ArrayFrame acc # K))"
    using Cons.prems by simp
  also have "\<dots> = steps (commaTokens (map tokens (x1 # xs)) @ ts)
                      (PValue (ArrayFrame (acc @ [x0]) # K))"
    by simp
  also have "\<dots> = steps ts (PArrayNext ((acc @ [x0]) @ x1 # xs) K)"
    using Cons.prems by (intro Cons.IH) simp
  finally show ?case by simp
qed

lemma steps_member:
  assumes "\<not> isIndexKey k" and "k \<notin> fst ` set acc"
    and "\<forall>K ts. steps (tokens v @ ts) (PValue K) = steps ts (deliver v K)"
  shows "steps (memberTokens (k, v) @ ts) (PObjectKey acc K) = steps ts (PObjectNext (acc @ [(k, v)]) K)"
  using assms by (simp add: memberTokens_def setProperty_fresh)

lemma steps_members:
  assumes "\<forall>m\<in>set (m0 # ms). \<not> isIndexKey (fst m)
             \<and> (\<forall>K ts. steps (tokens (snd m) @ ts) (PValue K) = steps ts (deliver (snd m) K))"
    and "distinct (map fst (acc @ m0 # ms))"
  shows "steps (commaTokens (map memberTokens (m0 # ms)) @ ts) (PObjectKey acc K)
           = steps ts (PObjectNext (acc @ m0 # ms) K)"
  using assms
proof (induction ms arbitrary: m0 acc)
  case Nil
  obtain k v where m0: "m0 = (k, v)" by (cases m0)
  from Nil show ?case
    unfolding m0 by (simp add: steps_member del: steps.simps)
next
  case (Cons m1 ms)
  obtain k v where m0: "m0 = (k, v)" by (cases m0)
  have fresh: "k \<notin> fst ` set acc" and nk: "\<not> isIndexKey k"
    and v: "\<forall>K ts. steps (tokens v @ ts) (PValue K) = steps ts (deliver v K)"
    using Cons.prems by (auto simp: m0)
  have "steps (commaTokens (map memberTokens (m0 # m1 # ms)) @ ts) (PObjectKey acc K)
          = steps (memberTokens (k, v) @ (TComma # commaTokens (map memberTokens (m1 # ms)) @ ts))
              (PObjectKey acc K)"
    by (simp add: m0)
  also have "\<dots> = steps (TComma # commaTokens (map memberTokens (m1 # ms)) @ ts)
                      (PObjectNext (acc @ [(k, v)]) K)"
    by (rule steps_member [OF nk fresh v])
  also have "\<dots> = steps (commaTokens (map memberTokens (m1 # ms)) @ ts)
                      (PObjectKey (acc @ [m0]) K)"
    by (simp add: m0)
  also have "\<dots> = steps ts (PObjectNext ((acc @ [m0]) @ m1 # ms) K)"
    using Cons.prems by (intro Cons.IH) simp_all
  finally show ?case by simp
qed

lemma steps_PObjectStart:
  "steps (memberTokens m @ ts) (PObjectStart K) = steps (memberTokens m @ ts) (PObjectKey [] K)"
  by (simp add: memberTokens_def)

lemma tokens_JObj: "tokens (JObj ms) = TLBrace # commaTokens (map memberTokens ms) @ [TRBrace]"
proof -
  have "(\<lambda>(k, v). TString k # TColon # tokens v) = memberTokens"
    by (auto simp: memberTokens_def fun_eq_iff)
  then show ?thesis by simp
qed

lemma steps_tokens:
  "ordinaryKeys v \<Longrightarrow> steps (tokens v @ ts) (PValue K) = steps ts (deliver v K)"
proof (induction v arbitrary: ts K)
  case (JArr xs)
  show ?case
  proof (cases xs)
    case Nil
    then show ?thesis by simp
  next
    case (Cons x0 xs')
    have el: "\<forall>x\<in>set (x0 # xs'). \<forall>K ts. steps (tokens x @ ts) (PValue K) = steps ts (deliver x K)"
      using JArr.IH JArr.prems Cons by (auto simp: list_all_iff)
    obtain t0 ts0 where t0: "tokens x0 = t0 # ts0"
      by (cases x0) simp_all
    have "steps (tokens (JArr xs) @ ts) (PValue K)
            = steps (commaTokens (map tokens (x0 # xs')) @ TRBracket # ts) (PArrayStart K)"
      using Cons by simp
    also have "\<dots> = steps (commaTokens (map tokens (x0 # xs')) @ TRBracket # ts)
                        (PValue (ArrayFrame [] # K))"
    proof -
      obtain r where "commaTokens (map tokens (x0 # xs')) @ TRBracket # ts = tokens x0 @ r"
        by (cases xs') simp_all
      then show ?thesis
        by (simp only: steps_tokens_PArrayStart)
    qed
    also have "\<dots> = steps (TRBracket # ts) (PArrayNext ([] @ x0 # xs') K)"
      by (rule steps_elements [OF el])
    finally show ?thesis
      using Cons by simp
  qed
next
  case (JObj ms)
  show ?case
  proof (cases ms)
    case Nil
    then show ?thesis by simp
  next
    case (Cons m0 ms')
    have mem: "\<forall>m\<in>set (m0 # ms'). \<not> isIndexKey (fst m)
             \<and> (\<forall>K ts. steps (tokens (snd m) @ ts) (PValue K) = steps ts (deliver (snd m) K))"
    proof
      fix m
      assume m: "m \<in> set (m0 # ms')"
      obtain k v where kv: "m = (k, v)" by (cases m)
      from m JObj.prems Cons kv have "\<not> isIndexKey k" and ok: "ordinaryKeys v"
        by (auto simp: list_all_iff)
      moreover have "\<forall>K ts. steps (tokens v @ ts) (PValue K) = steps ts (deliver v K)"
        using JObj.IH [of m v] m Cons kv ok by simp
      ultimately show "\<not> isIndexKey (fst m)
             \<and> (\<forall>K ts. steps (tokens (snd m) @ ts) (PValue K) = steps ts (deliver (snd m) K))"
        by (simp add: kv)
    qed
    have d: "distinct (map fst ([] @ m0 # ms'))"
      using JObj.prems Cons by simp
    have "steps (tokens (JObj ms) @ ts) (PValue K)
            = steps (commaTokens (map memberTokens (m0 # ms')) @ TRBrace # ts) (PObjectStart K)"
      unfolding tokens_JObj using Cons by simp
    also have "\<dots> = steps (commaTokens (map memberTokens (m0 # ms')) @ TRBrace # ts)
                        (PObjectKey [] K)"
    proof -
      obtain r where "commaTokens (map memberTokens (m0 # ms')) @ TRBrace # ts = memberTokens m0 @ r"
        by (cases ms') simp_all
      then show ?thesis
        by (simp only: steps_PObjectStart)
    qed
    also have "\<dots> = steps (TRBrace # ts) (PObjectNext ([] @ m0 # ms') K)"
      by (rule steps_members [OF mem d])
    finally show ?thesis
      using Cons by simp
  qed
qed simp_all

lemma parseJSON_stringify: "ordinaryKeys v \<Longrightarrow> parseJSON (stringify v) = Inr v"
proof -
  assume ok: "ordinaryKeys v"
  have "tokenize (stringify v @ []) = appendTokens (tokens v) (tokenize [])"
    by (rule tokenize_stringify) (simp add: delimited_def)
  then have l: "tokenize (stringify v) = Inr (tokens v)"
    by (simp add: appendTokens_def)
  have "steps (tokens v @ []) (PValue []) = steps [] (deliver v [])"
    using ok by (rule steps_tokens)
  then have "steps (tokens v) (PValue []) = Inr (PDone v)"
    by simp
  with l show ?thesis
    by (simp add: parseJSON_def)
qed

lemmas storage_defs = getItem_def setItem_def persistSaved_def persistStats_def

lemma grammarPointOfJson_inverse: "grammarPointOfJson (jsonOfGrammarPoint g) = Some g"
  by (cases g) (simp add: jsonOfGrammarPoint_def)

lemma those_grammarPoints: "those (map (grammarPointOfJson \<circ> jsonOfGrammarPoint) gs) = Some gs"
  by (induction gs) (simp_all add: grammarPointOfJson_inverse)

lemma savedOfJson_jsonOfSaved: "savedOfJson (jsonOfSaved gs) = Some gs"
  by (simp add: jsonOfSaved_def those_grammarPoints)

lemma statsOfJson_jsonOfStats: "statsOfJson (jsonOfStats s) = Some s"
  by (simp add: jsonOfStats_def jsonOfQuizStats_def)

lemma ordinaryKeys_jsonOfStats: "ordinaryKeys (jsonOfStats s)"
  by (simp add: jsonOfStats_def jsonOfQuizStats_def ascii_def isIndexKey_def isDigit_def)

lemma stringify_JArr_not_Nil: "stringify (JArr xs) \<noteq> []"
  by simp

lemma stringify_JObj_not_Nil: "stringify (JObj ms) \<noteq> []"
  by simp

lemma ordinaryKeys_jsonOfSaved:
  "ordinaryKeys (jsonOfSaved gs) = list_all (\<lambda>g. ordinaryKeys (jsonOfGrammarPoint g)) gs"
  by (simp add: jsonOfSaved_def list_all_iff)

lemma loadSaved_persistSaved:
  assumes "list_all (\<lambda>g. ordinaryKeys (jsonOfGrammarPoint g)) (savedGrammar st)"
  shows "loadSaved (persistSaved st storage) current = Inr (savedGrammar st)"
proof -
  have "parseJSON (stringify (jsonOfSaved (savedGrammar st))) = Inr (jsonOfSaved (savedGrammar st))"
    using assms by (intro parseJSON_stringify) (simp add: ordinaryKeys_jsonOfSaved)
  moreover have "stringify (jsonOfSaved (savedGrammar st)) \<noteq> []"
    unfolding jsonOfSaved_def by (rule stringify_JArr_not_Nil)
  ultimately show ?thesis
    by (simp add: loadSaved_def storage_defs savedOfJson_jsonOfSaved)
qed

lemma loadStats_persistStats:
  "loadStats (persistStats st storage) current = Inr (studyStats st)"
proof -
  have "parseJSON (stringify (jsonOfStats (studyStats st))) = Inr (jsonOfStats (studyStats st))"
    by (intro parseJSON_stringify ordinaryKeys_jsonOfStats)
  moreover have "stringify (jsonOfStats (studyStats st)) \<noteq> []"
    unfolding jsonOfStats_def by (rule stringify_JObj_not_Nil)
  ultimately show ?thesis
    by (simp add: loadStats_def storage_defs statsOfJson_jsonOfStats)
qed

lemma loadSaved_other_key:
  "loadSaved (persistStats st storage) current = loadSaved storage current"
  by (simp add: loadSaved_def storage_defs)

lemma parse_brace: "parseJSON (ascii ''{'') = Inl SyntaxError"
  by (simp add: parseJSON_def ascii_def isWhitespace_def isDigit_def consToken_def)

lemma parse_words: "parseJSON (ascii ''not json'') = Inl SyntaxError"
  by (simp add: parseJSON_def ascii_def isWhitespace_def isDigit_def consToken_def)

lemma ascii_not_Nil: "ascii ''{'' \<noteq> []" "ascii ''not json'' \<noteq> []"
  by (simp_all add: ascii_def)

section \<open>Statistics aggregation\<close>

text \<open>
  C3: for a call with \<open>0 \<le> correct \<le> total\<close>, the new \<open>correct\<close> and \<open>total\<close> are the
  old ones plus the arguments, the new \<open>streak\<close> is the old streak plus \<open>correct\<close> on a
  perfect round and 0 otherwise, and the new \<open>bestStreak\<close> is the maximum of the old
  \<open>bestStreak\<close> and the old streak, the one from before the call. The old values, the
  arguments and the sums are safe integers, where the sums of the code are exact.
\<close>

theorem handleQuizComplete_fields:
  assumes "0 \<le> c" and "c \<le> t" and "safeInteger t"
    and "safeInteger (correct (quizStats (studyStats st)))"
    and "safeInteger (total (quizStats (studyStats st)))"
    and "safeInteger (streak (quizStats (studyStats st)))"
    and "safeInteger (bestStreak (quizStats (studyStats st)))"
    and "safeInteger (correct (quizStats (studyStats st)) + c)"
    and "safeInteger (total (quizStats (studyStats st)) + t)"
    and "c = t \<longrightarrow> safeInteger (streak (quizStats (studyStats st)) + c)"
  shows "correct (quizStats (studyStats (handleQuizComplete c t st)))
           = correct (quizStats (studyStats st)) + c
       \<and> total (quizStats (studyStats (handleQuizComplete c t st)))
           = total (quizStats (studyStats st)) + t
       \<and> streak (quizStats (studyStats (handleQuizComplete c t st)))
           = (if c = t then streak (quizStats (studyStats st)) + c else 0)
       \<and> bestStreak (quizStats (studyStats (handleQuizComplete c t st)))
           = max (bestStreak (quizStats (studyStats st))) (streak (quizStats (studyStats st)))"
  by (simp add: handleQuizComplete_def quizCompleteUpdate_def)

theorem handleQuizComplete_fields_witness:
  "streak (quizStats (studyStats
      (handleQuizComplete 3 3 (handleQuizComplete 5 5 initialState)))) = 8
   \<and> bestStreak (quizStats (studyStats
      (handleQuizComplete 3 3 (handleQuizComplete 5 5 initialState)))) = 5
   \<and> correct (quizStats (studyStats (handleQuizComplete 2 3 initialState))) = 2
   \<and> total (quizStats (studyStats (handleQuizComplete 2 3 initialState))) = 3
   \<and> streak (quizStats (studyStats (handleQuizComplete 2 3 initialState))) = 0"
proof -
  let ?st = "handleQuizComplete 5 5 initialState"
  have s: "correct (quizStats (studyStats ?st)) = 5" "total (quizStats (studyStats ?st)) = 5"
    "streak (quizStats (studyStats ?st)) = 5" "bestStreak (quizStats (studyStats ?st)) = 0"
    by (simp_all add: handleQuizComplete_def quizCompleteUpdate_def initialState_def
        initialStats_def)
  have a: "streak (quizStats (studyStats (handleQuizComplete 3 3 ?st))) = 8
         \<and> bestStreak (quizStats (studyStats (handleQuizComplete 3 3 ?st))) = 5"
    using handleQuizComplete_fields [of 3 3 ?st] by (simp add: s safeInteger_def)
  have b: "correct (quizStats (studyStats (handleQuizComplete 2 3 initialState))) = 2
         \<and> total (quizStats (studyStats (handleQuizComplete 2 3 initialState))) = 3
         \<and> streak (quizStats (studyStats (handleQuizComplete 2 3 initialState))) = 0"
    using handleQuizComplete_fields [of 2 3 initialState]
    by (simp add: safeInteger_def initialState_def initialStats_def)
  from a b show ?thesis
    by simp
qed

text \<open>
  C1: at every state reached from the default statistics, \<open>bestStreak \<ge> streak\<close>, and
  the aggregation rule preserves this inequality. The code takes the maximum with the
  streak from before the call, so the first perfect round already breaks it: after the
  user has opened the games screen and a game has reported 5 of 5, the streak is 5 and
  the best streak is still 0.
\<close>

theorem bestStreak_lags_streak:
  "streak (quizStats initialStats) \<le> bestStreak (quizStats initialStats)
   \<and> streak (quizStats (quizCompleteUpdate 5 5 initialStats)) = 5
   \<and> bestStreak (quizStats (quizCompleteUpdate 5 5 initialStats)) = 0
   \<and> map_option (\<lambda>rt. (streak (quizStats (studyStats (app rt))),
                        bestStreak (quizStats (studyStats (app rt)))))
        (run [Navigate Entrance, Navigate Games, GameComplete 5 5] initialRuntime)
      = Some (5, 0)"
  by (simp add: handler_defs runtime_defs)

text \<open>
  C6: at every state reached from the default statistics by events whose reported results
  satisfy \<open>0 \<le> correct \<le> total\<close>, \<open>quizStats.correct \<le> quizStats.total\<close>.
\<close>

theorem correct_le_total:
  assumes "run es initialRuntime = Some rt" and "\<forall>e\<in>set es. validResult e"
  shows "correct (quizStats (studyStats (app rt))) \<le> total (quizStats (studyStats (app rt)))"
  using assms(1,2)
  by (rule quizStats_run) (simp add: runtime_defs)

theorem correct_le_total_witness:
  "run [Navigate Entrance, Navigate Games, GameComplete 2 3, GameComplete 5 5] initialRuntime \<noteq> None
   \<and> correct (quizStats (studyStats (app (the
        (run [Navigate Entrance, Navigate Games, GameComplete 2 3, GameComplete 5 5] initialRuntime)))))
     \<le> total (quizStats (studyStats (app (the
        (run [Navigate Entrance, Navigate Games, GameComplete 2 3, GameComplete 5 5] initialRuntime)))))"
proof -
  let ?es = "[Navigate Entrance, Navigate Games, GameComplete 2 3, GameComplete 5 5]"
  have r: "run ?es initialRuntime = Some (the (run ?es initialRuntime))"
    by (simp add: handler_defs runtime_defs)
  have v: "\<forall>e\<in>set ?es. validResult e"
    by simp
  from r correct_le_total [OF r v] show ?thesis
    by simp
qed

section \<open>The study-time ticker\<close>

text \<open>
  C4: in a session (mounted with any loaded values, then any events), an interval is
  armed exactly while \<open>currentScreen\<close> is \<^verbatim>\<open>rooms\<close>, and its delay is 1000 milliseconds;
  it can fire exactly when it is armed and 1000 milliseconds have passed since it was
  armed or last fired, so nothing fires on another screen; a firing adds exactly 1 to
  \<open>studyTime\<close> (a safe integer before and after, where the sum of the code is exact) and
  the interval counts from zero again; over any further events \<open>studyTime\<close> grows by the
  number of firings, each firing takes 1000 milliseconds of the time that passes, and
  \<open>studyTime\<close> never decreases.
\<close>

theorem studyTime_ticker:
  assumes "run es (mounted saved stats) = Some rt" and "run es' rt = Some rt'"
  shows "(interval rt \<noteq> None) = (currentScreen (app rt) = Rooms)
       \<and> (\<forall>i. interval rt = Some i \<longrightarrow> delay i = 1000 \<and> waited i \<le> 1000)
       \<and> (fire IntervalFires rt \<noteq> None) = (currentScreen (app rt) = Rooms \<and> waitedOf rt = 1000)
       \<and> (safeInteger (studyTime (studyStats (app rt)))
            \<and> safeInteger (studyTime (studyStats (app rt)) + 1) \<longrightarrow>
          (\<forall>rt1. fire IntervalFires rt = Some rt1 \<longrightarrow>
             studyTime (studyStats (app rt1)) = studyTime (studyStats (app rt)) + 1
             \<and> waitedOf rt1 = 0))
       \<and> (safeInteger (studyTime (studyStats (app rt)))
            \<and> safeInteger (studyTime (studyStats (app rt)) + int (firings es')) \<longrightarrow>
          studyTime (studyStats (app rt')) = studyTime (studyStats (app rt)) + int (firings es'))
       \<and> 1000 * firings es' + waitedOf rt' \<le> waitedOf rt + elapsed es'
       \<and> studyTime (studyStats (app rt)) \<le> studyTime (studyStats (app rt'))"
proof -
  have inv: "intervalArmed rt"
    using assms(1) interval_mounted by (rule interval_run)
  have armed: "(interval rt \<noteq> None) = (currentScreen (app rt) = Rooms)"
    using inv by (auto simp: intervalArmed_def split: option.splits)
  have dl: "\<forall>i. interval rt = Some i \<longrightarrow> delay i = 1000 \<and> waited i \<le> 1000"
    using inv by (auto simp: intervalArmed_def)
  have due: "(fire IntervalFires rt \<noteq> None) = (currentScreen (app rt) = Rooms \<and> waitedOf rt = 1000)"
    using inv by (auto simp: intervalArmed_def waitedOf_def split: option.splits)
  have one: "\<forall>rt1. fire IntervalFires rt = Some rt1 \<longrightarrow>
             studyTime (studyStats (app rt1)) = studyTime (studyStats (app rt)) + 1
             \<and> waitedOf rt1 = 0"
    by (auto simp: waitedOf_def handler_defs commit_def studyTimeEffect_def
        split: if_splits option.splits)
  have grow: "studyTime (studyStats (app rt')) = studyTime (studyStats (app rt)) + int (firings es')"
    using assms(2) by (rule studyTime_run)
  have time: "1000 * firings es' + waitedOf rt' \<le> waitedOf rt + elapsed es'"
    using assms(2) inv by (rule waited_run)
  from grow have mono: "studyTime (studyStats (app rt)) \<le> studyTime (studyStats (app rt'))"
    by simp
  from armed dl due one grow time mono show ?thesis
    by blast
qed

theorem studyTime_ticker_witness:
  "map_option (\<lambda>rt. (currentScreen (app rt), studyTime (studyStats (app rt)), waitedOf rt))
     (run [Navigate Entrance, LevelSelect Beginner, Elapse 1000, IntervalFires, Elapse 400,
           Elapse 600, IntervalFires, Elapse 1000, IntervalFires, Elapse 250] initialRuntime)
   = Some (Rooms, 3, 250)
   \<and> map_option (\<lambda>rt. (currentScreen (app rt), studyTime (studyStats (app rt)), waitedOf rt))
     (run [Navigate Entrance, LevelSelect Beginner, Elapse 1000, IntervalFires, Elapse 400,
           Elapse 600, IntervalFires, Elapse 1000, IntervalFires, Elapse 250,
           Navigate Notebook, Elapse 5000, Navigate Rooms, Elapse 1000, IntervalFires,
           Elapse 1000, IntervalFires] initialRuntime)
   = Some (Rooms, 5, 0)
   \<and> run [Navigate Entrance, LevelSelect Beginner, Elapse 999, IntervalFires] initialRuntime = None
   \<and> run [Navigate Entrance, LevelSelect Beginner, Elapse 1000, IntervalFires,
          Navigate Notebook, Elapse 1000, IntervalFires] initialRuntime = None"
proof -
  let ?es = "[Navigate Entrance, LevelSelect Beginner, Elapse 1000, IntervalFires, Elapse 400,
              Elapse 600, IntervalFires, Elapse 1000, IntervalFires, Elapse 250]"
  let ?es' = "[Navigate Notebook, Elapse 5000, Navigate Rooms, Elapse 1000, IntervalFires,
               Elapse 1000, IntervalFires]"
  let ?rt = "\<lparr>app = \<lparr>currentScreen = Rooms, selectedLevel = Some Beginner, savedGrammar = [],
                      studyStats = initialStats\<lparr>studyTime := 3\<rparr>\<rparr>,
              interval = Some \<lparr>delay = 1000, waited = 250\<rparr>\<rparr>"
  let ?rt' = "\<lparr>app = \<lparr>currentScreen = Rooms, selectedLevel = Some Beginner, savedGrammar = [],
                       studyStats = initialStats\<lparr>studyTime := 5\<rparr>\<rparr>,
               interval = Some \<lparr>delay = 1000, waited = 0\<rparr>\<rparr>"
  have r: "run ?es (mounted [] initialStats) = Some ?rt"
    by (simp add: handler_defs runtime_defs)
  have r': "run ?es' ?rt = Some ?rt'"
    by (simp add: handler_defs runtime_defs)
  have all: "run (?es @ ?es') initialRuntime = Some ?rt'"
    by (simp add: handler_defs runtime_defs)
  have early: "run [Navigate Entrance, LevelSelect Beginner, Elapse 999, IntervalFires]
                 initialRuntime = None"
    by (simp add: handler_defs runtime_defs)
  have away: "run [Navigate Entrance, LevelSelect Beginner, Elapse 1000, IntervalFires,
                   Navigate Notebook, Elapse 1000, IntervalFires] initialRuntime = None"
    by (simp add: handler_defs runtime_defs)
  note t = studyTime_ticker [OF r r']
  have f: "firings ?es' = 2" and e: "elapsed ?es' = 7000"
    by (simp_all add: firings_def elapsed_def)
  have safe: "safeInteger (studyTime (studyStats (app ?rt)))
      \<and> safeInteger (studyTime (studyStats (app ?rt)) + int (firings ?es'))"
    by (simp add: f safeInteger_def)
  from t have "safeInteger (studyTime (studyStats (app ?rt)))
      \<and> safeInteger (studyTime (studyStats (app ?rt)) + int (firings ?es')) \<longrightarrow>
      studyTime (studyStats (app ?rt')) = studyTime (studyStats (app ?rt)) + int (firings ?es')"
    by (elim conjE)
  from this safe have grow: "studyTime (studyStats (app ?rt'))
      = studyTime (studyStats (app ?rt)) + int (firings ?es')"
    by (rule mp)
  from t have time: "1000 * firings ?es' + waitedOf ?rt' \<le> waitedOf ?rt + elapsed ?es'"
    by (elim conjE)
  from grow time r all early away show ?thesis
    by (simp add: initialRuntime_def waitedOf_def initialStats_def)
qed

section \<open>The saved grammar\<close>

text \<open>
  C5: saving a point whose identifier is already in the saved list leaves the list as it
  is, saving any other point appends it at the end; so from a list without duplicate
  identifiers, no sequence of events produces a duplicate, and the old list stays a
  prefix of the new one.
\<close>

theorem handleSaveGrammar_dedup:
  "((\<exists>x\<in>set (savedGrammar st). id_gp x = id_gp g) \<longrightarrow>
      savedGrammar (handleSaveGrammar g st) = savedGrammar st)
   \<and> ((\<forall>x\<in>set (savedGrammar st). id_gp x \<noteq> id_gp g) \<longrightarrow>
      savedGrammar (handleSaveGrammar g st) = savedGrammar st @ [g])
   \<and> (distinct (map id_gp (savedGrammar (app rt))) \<and> run es rt = Some rt' \<longrightarrow>
      distinct (map id_gp (savedGrammar (app rt')))
      \<and> prefix (savedGrammar (app rt)) (savedGrammar (app rt')))"
proof -
  have "(\<exists>x\<in>set (savedGrammar st). id_gp x = id_gp g) \<longrightarrow>
      savedGrammar (handleSaveGrammar g st) = savedGrammar st"
    by (simp add: handleSaveGrammar_def saveGrammarUpdate_if)
  moreover have "(\<forall>x\<in>set (savedGrammar st). id_gp x \<noteq> id_gp g) \<longrightarrow>
      savedGrammar (handleSaveGrammar g st) = savedGrammar st @ [g]"
    by (simp add: handleSaveGrammar_def saveGrammarUpdate_if)
  moreover have "distinct (map id_gp (savedGrammar (app rt))) \<and> run es rt = Some rt' \<longrightarrow>
      distinct (map id_gp (savedGrammar (app rt')))
      \<and> prefix (savedGrammar (app rt)) (savedGrammar (app rt'))"
    using savedGrammar_run by blast
  ultimately show ?thesis
    by blast
qed

theorem handleSaveGrammar_dedup_witness:
  "map_option (\<lambda>rt. map id_gp (savedGrammar (app rt)))
     (run [SaveGrammar \<lparr>id_gp = ascii ''a'', props_gp = []\<rparr>,
           SaveGrammar \<lparr>id_gp = ascii ''b'', props_gp = []\<rparr>,
           SaveGrammar \<lparr>id_gp = ascii ''a'', props_gp = [(ascii ''x'', JNull)]\<rparr>]
        initialRuntime)
   = Some [ascii ''a'', ascii ''b'']"
proof -
  let ?a = "\<lparr>id_gp = ascii ''a'', props_gp = []\<rparr>"
  let ?b = "\<lparr>id_gp = ascii ''b'', props_gp = []\<rparr>"
  let ?a' = "\<lparr>id_gp = ascii ''a'', props_gp = [(ascii ''x'', JNull)]\<rparr>"
  let ?st = "initialState\<lparr>savedGrammar := [?a, ?b]\<rparr>"
  have ab: "ascii ''a'' \<noteq> ascii ''b''"
    by (simp add: ascii_def)
  have "savedGrammar (handleSaveGrammar ?a' ?st) = savedGrammar ?st"
    using handleSaveGrammar_dedup [of ?st ?a'] by simp
  moreover have "savedGrammar (handleSaveGrammar ?b (initialState\<lparr>savedGrammar := [?a]\<rparr>)) = [?a, ?b]"
    using handleSaveGrammar_dedup [of "initialState\<lparr>savedGrammar := [?a]\<rparr>" ?b] ab by simp
  moreover have "savedGrammar (handleSaveGrammar ?a initialState) = [?a]"
    using handleSaveGrammar_dedup [of initialState ?a] by (simp add: initialState_def)
  ultimately show ?thesis
    by (simp add: handleSaveGrammar_def commit_def studyTimeEffect_def mounted_def
        initialRuntime_def initialState_def)
qed

section \<open>The progress display\<close>

text \<open>
  C9: on the progress screen, the \<^verbatim>\<open>grammarMastered\<close> that \<^verbatim>\<open>StudyProgress\<close>
  receives is the length of the saved list, whatever the \<open>grammarMastered\<close> field of the
  statistics holds.
\<close>

theorem grammarMastered_is_saved_length:
  assumes "currentScreen st = Progress"
  shows "render st =
           Some (StudyProgress (quizStats (studyStats st)) (studyTime (studyStats st))
                   (int (length (savedGrammar st))) getTotalGrammarCount)
       \<and> render (st\<lparr>studyStats := (studyStats st)\<lparr>grammarMastered := m\<rparr>\<rparr>) = render st"
  using assms by (simp add: render_def)

theorem grammarMastered_is_saved_length_witness:
  "render (initialState\<lparr>currentScreen := Progress,
             savedGrammar := [\<lparr>id_gp = ascii ''a'', props_gp = []\<rparr>,
                              \<lparr>id_gp = ascii ''b'', props_gp = []\<rparr>],
             studyStats := initialStats\<lparr>grammarMastered := 7\<rparr>\<rparr>)
   = Some (StudyProgress \<lparr>correct = 0, total = 0, streak = 0, bestStreak = 0\<rparr> 0 2 53)"
proof -
  let ?st = "initialState\<lparr>currentScreen := Progress,
             savedGrammar := [\<lparr>id_gp = ascii ''a'', props_gp = []\<rparr>,
                              \<lparr>id_gp = ascii ''b'', props_gp = []\<rparr>],
             studyStats := initialStats\<lparr>grammarMastered := 7\<rparr>\<rparr>"
  have "currentScreen ?st = Progress"
    by simp
  from grammarMastered_is_saved_length [OF this, of 0] show ?thesis
    by (simp add: initialStats_def getTotalGrammarCount_def counts_def)
qed

section \<open>Frames of the two mutators of the statistics\<close>

text \<open>
  C10: \<open>handleQuizComplete\<close> (and \<open>handleGameComplete\<close>, which delegates to it) changes
  the \<open>quizStats\<close> field only, and a firing of the interval changes \<open>studyTime\<close> only:
  every other field of the statistics and every other state cell stays as it was.
\<close>

theorem mutators_frame:
  "handleQuizComplete c t st =
     st\<lparr>studyStats := (studyStats st)\<lparr>quizStats := quizStats (studyStats (handleQuizComplete c t st))\<rparr>\<rparr>
   \<and> handleGameComplete c t st = handleQuizComplete c t st
   \<and> studyTime (studyStats (handleQuizComplete c t st)) = studyTime (studyStats st)
   \<and> grammarMastered (studyStats (handleQuizComplete c t st)) = grammarMastered (studyStats st)
   \<and> tick st = st\<lparr>studyStats := (studyStats st)\<lparr>studyTime := studyTime (studyStats (tick st))\<rparr>\<rparr>
   \<and> quizStats (studyStats (tick st)) = quizStats (studyStats st)
   \<and> grammarMastered (studyStats (tick st)) = grammarMastered (studyStats st)"
  by (simp add: handler_defs)

section \<open>Startup load\<close>

lemma load_nothing_stored:
  assumes "getItem storage ''korean-grammar-saved'' = None
         \<or> getItem storage ''korean-grammar-saved'' = Some []"
    and "getItem storage ''korean-grammar-stats'' = None
       \<or> getItem storage ''korean-grammar-stats'' = Some []"
  shows "load storage st = Inr st"
  using assms by (auto simp: load_def loadSaved_def loadStats_def)

lemma load_saved_malformed:
  assumes "getItem storage ''korean-grammar-saved'' = Some saved" and "saved \<noteq> []"
    and "parseJSON saved = Inl SyntaxError"
  shows "load storage st = Inl SyntaxError"
  using assms by (simp add: load_def loadSaved_def)

lemma load_stats_malformed:
  assumes "loadSaved storage (savedGrammar st) \<noteq> Inl Unmodelled"
    and "getItem storage ''korean-grammar-stats'' = Some stats" and "stats \<noteq> []"
    and "parseJSON stats = Inl SyntaxError"
  shows "load storage st = Inl SyntaxError"
proof (cases "loadSaved storage (savedGrammar st)")
  case (Inl e)
  with assms(1) have "e = SyntaxError"
    by (cases e) simp_all
  with Inl show ?thesis
    by (simp add: load_def)
next
  case (Inr gs)
  with assms(2-4) show ?thesis
    by (simp add: load_def loadStats_def)
qed

text \<open>
  C2, as the spec states it: whenever the string stored under a key is absent or is not
  valid JSON, the load leaves the defaults and raises nothing. The code parses without a
  guard: with \<^verbatim>\<open>{\<close> stored under \<^verbatim>\<open>korean-grammar-saved\<close>, or \<^verbatim>\<open>not json\<close> under
  \<^verbatim>\<open>korean-grammar-stats\<close>, \<^verbatim>\<open>JSON.parse\<close> throws a \<^verbatim>\<open>SyntaxError\<close> and so does the
  load effect.
\<close>

theorem load_malformed_throws:
  "parseJSON (ascii ''{'') = Inl SyntaxError
   \<and> load [''korean-grammar-saved'' \<mapsto> ascii ''{''] initialState = Inl SyntaxError
   \<and> parseJSON (ascii ''not json'') = Inl SyntaxError
   \<and> load [''korean-grammar-stats'' \<mapsto> ascii ''not json''] initialState = Inl SyntaxError
   \<and> mount [''korean-grammar-saved'' \<mapsto> ascii ''{''] = Inl SyntaxError"
  by (simp add: parse_brace parse_words ascii_not_Nil load_def loadSaved_def loadStats_def
      mount_def getItem_def)

text \<open>
  C2, amended: when the string stored under each of the two keys is absent (or empty), the
  load leaves the saved grammar and the statistics as they are, at their defaults on
  startup, and raises nothing; when a stored string is present, not empty and not valid
  JSON, the load raises the \<^verbatim>\<open>SyntaxError\<close> of \<^verbatim>\<open>JSON.parse\<close> and there is no fallback
  to the defaults.
\<close>

theorem load_absent_or_malformed:
  "((getItem storage ''korean-grammar-saved'' = None
       \<or> getItem storage ''korean-grammar-saved'' = Some [])
     \<and> (getItem storage ''korean-grammar-stats'' = None
       \<or> getItem storage ''korean-grammar-stats'' = Some [])
     \<longrightarrow> load storage initialState = Inr initialState
         \<and> mount storage = Inr initialRuntime)
   \<and> (getItem storage ''korean-grammar-saved'' = Some saved \<and> saved \<noteq> []
       \<and> parseJSON saved = Inl SyntaxError
     \<longrightarrow> load storage st = Inl SyntaxError)
   \<and> (loadSaved storage (savedGrammar st) \<noteq> Inl Unmodelled
       \<and> getItem storage ''korean-grammar-stats'' = Some stats \<and> stats \<noteq> []
       \<and> parseJSON stats = Inl SyntaxError
     \<longrightarrow> load storage st = Inl SyntaxError)"
proof (intro conjI impI)
  assume a: "(getItem storage ''korean-grammar-saved'' = None
       \<or> getItem storage ''korean-grammar-saved'' = Some [])
     \<and> (getItem storage ''korean-grammar-stats'' = None
       \<or> getItem storage ''korean-grammar-stats'' = Some [])"
  then show l: "load storage initialState = Inr initialState"
    by (intro load_nothing_stored) simp_all
  then show "mount storage = Inr initialRuntime"
    by (simp add: mount_def initialRuntime_def initialState_def)
next
  assume "getItem storage ''korean-grammar-saved'' = Some saved \<and> saved \<noteq> []
       \<and> parseJSON saved = Inl SyntaxError"
  then show "load storage st = Inl SyntaxError"
    using load_saved_malformed by blast
next
  assume "loadSaved storage (savedGrammar st) \<noteq> Inl Unmodelled
       \<and> getItem storage ''korean-grammar-stats'' = Some stats \<and> stats \<noteq> []
       \<and> parseJSON stats = Inl SyntaxError"
  then show "load storage st = Inl SyntaxError"
    using load_stats_malformed by blast
qed

theorem load_absent_or_malformed_witness:
  "load [''korean-grammar-saved'' \<mapsto> []] initialState = Inr initialState
   \<and> mount [''korean-grammar-saved'' \<mapsto> []] = Inr initialRuntime
   \<and> load [''korean-grammar-saved'' \<mapsto> ascii ''{''] initialState = Inl SyntaxError
   \<and> load [''korean-grammar-stats'' \<mapsto> ascii ''not json''] initialState = Inl SyntaxError"
proof -
  have u: "loadSaved [''korean-grammar-stats'' \<mapsto> ascii ''not json''] (savedGrammar initialState)
             \<noteq> Inl Unmodelled"
    by (simp add: loadSaved_def getItem_def)
  show ?thesis
    using load_absent_or_malformed
            [where storage = "[''korean-grammar-saved'' \<mapsto> []]" and saved = "[]"
               and stats = "[]" and st = initialState]
          load_absent_or_malformed
            [where storage = "[''korean-grammar-saved'' \<mapsto> ascii ''{'']"
               and saved = "ascii ''{''" and stats = "[]" and st = initialState]
          load_absent_or_malformed
            [where storage = "[''korean-grammar-stats'' \<mapsto> ascii ''not json'']"
               and saved = "[]" and stats = "ascii ''not json''" and st = initialState]
          u
    by (simp add: getItem_def parse_brace parse_words ascii_not_Nil)
qed

text \<open>
  C8: when neither key is in the storage, the state after the load is the default state:
  no saved grammar, and statistics that are all zero.
\<close>

theorem load_defaults:
  assumes "getItem storage ''korean-grammar-saved'' = None"
    and "getItem storage ''korean-grammar-stats'' = None"
  shows "load storage initialState = Inr initialState
       \<and> mount storage = Inr initialRuntime
       \<and> savedGrammar initialState = []
       \<and> studyStats initialState =
           \<lparr>quizStats = \<lparr>correct = 0, total = 0, streak = 0, bestStreak = 0\<rparr>,
            studyTime = 0, grammarMastered = 0\<rparr>"
proof -
  have l: "load storage initialState = Inr initialState"
    using assms by (intro load_nothing_stored) simp_all
  then have "mount storage = Inr initialRuntime"
    by (simp add: mount_def initialRuntime_def initialState_def)
  with l show ?thesis
    by (simp add: initialState_def initialStats_def)
qed

theorem load_defaults_witness:
  "load Map.empty initialState = Inr initialState
   \<and> map_sum id (\<lambda>rt. (savedGrammar (app rt), studyStats (app rt), currentScreen (app rt)))
        (mount [''theme'' \<mapsto> ascii ''dark''])
     = Inr ([], \<lparr>quizStats = \<lparr>correct = 0, total = 0, streak = 0, bestStreak = 0\<rparr>,
                  studyTime = 0, grammarMastered = 0\<rparr>, Welcome)"
proof -
  have a: "getItem Map.empty ''korean-grammar-saved'' = None"
    "getItem Map.empty ''korean-grammar-stats'' = None"
    by (simp_all add: getItem_def)
  have b: "getItem [''theme'' \<mapsto> ascii ''dark''] ''korean-grammar-saved'' = None"
    "getItem [''theme'' \<mapsto> ascii ''dark''] ''korean-grammar-stats'' = None"
    by (simp_all add: getItem_def)
  from load_defaults [OF a] load_defaults [OF b] show ?thesis
    by (simp add: runtime_defs)
qed

section \<open>Round trip of the saved grammar\<close>

text \<open>
  C7: loading after persisting gives the saved list back, the same points in the same
  order: the load of the saved cell from any storage in which the persist effect has
  written the list \<open>S\<close> returns \<open>S\<close>, and so does the whole load effect after both
  persist effects. The points are JSON data whose objects have distinct property names,
  none of them an array index.
\<close>

theorem saved_round_trip:
  assumes "list_all (\<lambda>g. ordinaryKeys (jsonOfGrammarPoint g)) S"
  shows "loadSaved (persistSaved (st\<lparr>savedGrammar := S\<rparr>) storage) current = Inr S
       \<and> load (persistStats (st\<lparr>savedGrammar := S\<rparr>) (persistSaved (st\<lparr>savedGrammar := S\<rparr>) storage))
           initialState
         = Inr (initialState\<lparr>savedGrammar := S, studyStats := studyStats st\<rparr>)"
proof -
  let ?st = "st\<lparr>savedGrammar := S\<rparr>"
  have a: "list_all (\<lambda>g. ordinaryKeys (jsonOfGrammarPoint g)) (savedGrammar ?st)"
    using assms by simp
  have s: "loadSaved (persistSaved ?st storage) current = Inr S" for current storage
    using loadSaved_persistSaved [OF a, of storage current] by simp
  have t: "loadStats (persistStats ?st storage) current = Inr (studyStats st)" for current storage
    using loadStats_persistStats [of ?st storage current] by simp
  show ?thesis
    by (simp add: s load_def loadSaved_other_key t)
qed

theorem saved_round_trip_witness:
  "loadSaved
     (persistSaved
        (initialState\<lparr>savedGrammar :=
           [\<lparr>id_gp = ascii ''b1'',
             props_gp = [(ascii ''korean'', JStr [0xC774, 0xB2E4]),
                         (ascii ''examples'', JArr [JStr (ascii ''a b''), JNull]),
                         (ascii ''order'', JNum (- 12))]\<rparr>,
            \<lparr>id_gp = ascii ''b2'', props_gp = [(ascii ''seen'', JBool True)]\<rparr>]\<rparr>)
        Map.empty) []
   = Inr [\<lparr>id_gp = ascii ''b1'',
           props_gp = [(ascii ''korean'', JStr [0xC774, 0xB2E4]),
                       (ascii ''examples'', JArr [JStr (ascii ''a b''), JNull]),
                       (ascii ''order'', JNum (- 12))]\<rparr>,
          \<lparr>id_gp = ascii ''b2'', props_gp = [(ascii ''seen'', JBool True)]\<rparr>]"
proof -
  let ?S = "[\<lparr>id_gp = ascii ''b1'',
             props_gp = [(ascii ''korean'', JStr [0xC774, 0xB2E4]),
                         (ascii ''examples'', JArr [JStr (ascii ''a b''), JNull]),
                         (ascii ''order'', JNum (- 12))]\<rparr>,
            \<lparr>id_gp = ascii ''b2'', props_gp = [(ascii ''seen'', JBool True)]\<rparr>]"
  have "list_all (\<lambda>g. ordinaryKeys (jsonOfGrammarPoint g)) ?S"
    by (simp add: jsonOfGrammarPoint_def ascii_def isIndexKey_def isDigit_def)
  from saved_round_trip [OF this, of initialState Map.empty "[]"] show ?thesis
    by simp
qed

end
